theory Spec2Isabelle
  imports Main "HOL-Library.AList"
begin

section \<open>Python string primitives used by the feature-file parser\<close>

text \<open>
  The source is \<^verbatim>\<open>src/pytest_bdd/parser.py\<close>. A Python \<^verbatim>\<open>str\<close> is modelled as
  a \<^typ>\<open>string\<close>, one \<^typ>\<open>char\<close> per code point below 256.  The whitespace class
  of \<^verbatim>\<open>str.strip\<close>, \<^verbatim>\<open>str.lstrip\<close> and of the regular expression class
  \<^verbatim>\<open>\s\<close> is the set of code points for which \<^verbatim>\<open>str.isspace\<close> holds.
\<close>

definition is_space :: "char \<Rightarrow> bool" where
  "is_space c = (c \<in> set [CHR 0x09, CHR 0x0A, CHR 0x0B, CHR 0x0C, CHR 0x0D,
      CHR 0x1C, CHR 0x1D, CHR 0x1E, CHR 0x1F, CHR 0x20, CHR 0x85, CHR 0xA0])"

definition py_lstrip :: "string \<Rightarrow> string" where
  "py_lstrip s = dropWhile is_space s"

definition py_rstrip :: "string \<Rightarrow> string" where
  "py_rstrip s = rev (dropWhile is_space (rev s))"

definition py_strip :: "string \<Rightarrow> string" where
  "py_strip s = py_rstrip (py_lstrip s)"

definition startswith :: "string \<Rightarrow> string \<Rightarrow> bool" where
  "startswith s p = (take (length p) s = p)"

text \<open>\<^verbatim>\<open>sep.join(xs)\<close>.\<close>

fun py_join :: "string \<Rightarrow> string list \<Rightarrow> string" where
  "py_join sep [] = []"
| "py_join sep [x] = x"
| "py_join sep (x # y # ys) = x @ sep @ py_join sep (y # ys)"

text \<open>
  \<^verbatim>\<open>s.split(sep)\<close> for a non-empty separator: the occurrences of \<open>sep\<close> are found
  from the left and do not overlap; \<open>n\<close> occurrences give \<open>n + 1\<close> pieces.
\<close>

fun py_split :: "string \<Rightarrow> string \<Rightarrow> string list" where
  "py_split sep [] = [[]]"
| "py_split sep (c # cs) =
     (if sep \<noteq> [] \<and> startswith (c # cs) sep
      then [] # py_split sep (drop (length sep - 1) cs)
      else (case py_split sep cs of
              [] \<Rightarrow> [[c]]
            | r # rs \<Rightarrow> (c # r) # rs))"

section \<open>Classifier\<close>

text \<open>
  Modelled from the spec: the module \<^verbatim>\<open>types\<close> of the package is imported by the
  parser and is not part of the sources at hand. Its constants are the mode tokens the
  spec names (Feature, Scenario Outline, Examples, the two Examples sub-modes "awaiting
  column names" and "awaiting data rows", Scenario, Background, Given, When, Then, Tag);
  they are pairwise distinct, non-empty strings and \<^verbatim>\<open>STEP_TYPES\<close> is
  (Given, When, Then). The token of \<^verbatim>\<open>types.THEN\<close> is written \<open>THEN_TYPE\<close>.
\<close>

datatype mode = FEATURE | SCENARIO_OUTLINE | EXAMPLES | EXAMPLES_HEADERS | EXAMPLE_LINE
  | SCENARIO | BACKGROUND | GIVEN | WHEN | THEN_TYPE | TAG

definition STEP_TYPES :: "mode list" where
  "STEP_TYPES = [GIVEN, WHEN, THEN_TYPE]"

definition STEP_PREFIXES :: "(string \<times> mode option) list" where
  "STEP_PREFIXES =
    [(''Feature: '', Some FEATURE),
     (''Scenario Outline: '', Some SCENARIO_OUTLINE),
     (''Examples:'', Some EXAMPLES),
     (''Scenario: '', Some SCENARIO),
     (''Background:'', Some BACKGROUND),
     (''Given '', Some GIVEN),
     (''When '', Some WHEN),
     (''Then '', Some THEN_TYPE),
     (''@'', Some TAG),
     (''And '', None),
     (''But '', None)]"

text \<open>
  \<^verbatim>\<open>SPLIT_LINE_RE.split(line)\<close> with \<^verbatim>\<open>SPLIT_LINE_RE = (?<!\\)\|\<close>: the line is cut
  at every \<open>|\<close> that is not directly preceded by a backslash. The flag says whether the
  previous character is a backslash.
\<close>

fun split_pipe :: "bool \<Rightarrow> string \<Rightarrow> string list" where
  "split_pipe esc [] = [[]]"
| "split_pipe esc (c # cs) =
     (if c = CHR ''|'' \<and> \<not> esc then [] # split_pipe False cs
      else (case split_pipe (c = CHR 0x5C) cs of
              [] \<Rightarrow> [[c]]
            | r # rs \<Rightarrow> (c # r) # rs))"

text \<open>\<^verbatim>\<open>cell.replace("\\|", "|")\<close>: every backslash-pipe pair, from the left.\<close>

fun unescape_pipe :: "string \<Rightarrow> string" where
  "unescape_pipe (a # b # cs) =
     (if a = CHR 0x5C \<and> b = CHR ''|'' then CHR ''|'' # unescape_pipe cs
      else a # unescape_pipe (b # cs))"
| "unescape_pipe cs = cs"

text \<open>\<^verbatim>\<open>xs[1:-1]\<close>: without the first and the last element; empty for fewer than three.\<close>

definition slice_1_m1 :: "'a list \<Rightarrow> 'a list" where
  "slice_1_m1 xs = butlast (tl xs)"

definition split_line :: "string \<Rightarrow> string list" where
  "split_line line = map (\<lambda>cell. py_strip (unescape_pipe cell)) (slice_1_m1 (split_pipe False line))"

text \<open>\<^verbatim>\<open>parse_line\<close>: the loop over \<^verbatim>\<open>STEP_PREFIXES\<close>, first match wins.\<close>

fun parse_line_loop :: "(string \<times> mode option) list \<Rightarrow> string \<Rightarrow> string \<times> string" where
  "parse_line_loop [] line = ([], line)"
| "parse_line_loop ((prefix, t) # ps) line =
     (if startswith line prefix
      then (py_strip prefix, py_strip (drop (length prefix) line))
      else parse_line_loop ps line)"

definition parse_line :: "string \<Rightarrow> string \<times> string" where
  "parse_line line = parse_line_loop STEP_PREFIXES line"

text \<open>
  \<^verbatim>\<open>strip_comments\<close>: \<^verbatim>\<open>COMMENT_RE = (^|(?<=\s))#\<close> finds the first \<open>#\<close> that is at the
  start of the line or directly after a whitespace character; the line is cut there and
  trimmed. The flag says whether a \<open>#\<close> at this position starts a comment.
\<close>

fun cut_comment :: "bool \<Rightarrow> string \<Rightarrow> string" where
  "cut_comment b [] = []"
| "cut_comment b (c # cs) =
     (if c = CHR ''#'' \<and> b then [] else c # cut_comment (is_space c) cs)"

definition strip_comments :: "string \<Rightarrow> string" where
  "strip_comments line = py_strip (cut_comment True line)"

fun get_step_type_loop :: "(string \<times> mode option) list \<Rightarrow> string \<Rightarrow> mode option" where
  "get_step_type_loop [] line = None"
| "get_step_type_loop ((prefix, t) # ps) line =
     (if startswith line prefix then t else get_step_type_loop ps line)"

definition get_step_type :: "string \<Rightarrow> mode option" where
  "get_step_type line = get_step_type_loop STEP_PREFIXES line"

text \<open>
  \<^verbatim>\<open>get_tags\<close>. The argument is \<^verbatim>\<open>None\<close> before the first significant line.
  \<^verbatim>\<open>tag.lstrip("@")\<close> removes every leading \<open>@\<close>; the filter \<^verbatim>\<open>len(tag) > 1\<close> is
  applied to the piece as \<^verbatim>\<open>split\<close> returns it, before the \<open>@\<close> are removed.
\<close>

definition lstrip_at :: "string \<Rightarrow> string" where
  "lstrip_at tag = dropWhile (\<lambda>c. c = CHR ''@'') tag"

definition get_tags :: "string option \<Rightarrow> string set" where
  "get_tags line =
     (case line of
        None \<Rightarrow> {}
      | Some l \<Rightarrow>
          if l = [] \<or> \<not> startswith (py_strip l) ''@'' then {}
          else set (map lstrip_at (filter (\<lambda>tag. length tag > 1) (py_split '' @'' (py_strip l)))))"

section \<open>Exceptions\<close>

text \<open>
  Exceptions are values. \<open>FeatureError\<close> is \<^verbatim>\<open>exceptions.FeatureError\<close> with its
  four arguments (message, line number, line, filename); \<open>AttributeError\<close> names the
  attribute whose lookup failed; \<open>KeyError\<close> carries the missing key;
  \<open>RecursionError\<close> is what Python raises for a recursion that does not end.
\<close>

datatype error =
    FeatureError string nat string string
  | AttributeError string
  | KeyError string
  | ValidationError string
  | AssertionError
  | RecursionError

section \<open>Text reconstruction and placeholder substitution\<close>

text \<open>
  \<^verbatim>\<open>textwrap.dedent\<close> of the standard library, as CPython 3.11 defines it, on the
  \<open>\n\<close>-separated lines of the text: a line of spaces and tabs only becomes empty; the
  margin is folded over the leading space-and-tab runs of the other non-empty lines in
  the three cases of the library's loop; a non-empty margin is removed from the start of
  every line that starts with it.
\<close>

definition is_sp_tab :: "char \<Rightarrow> bool" where
  "is_sp_tab c = (c = CHR 0x20 \<or> c = CHR 0x09)"

definition blank_ws_only :: "string \<Rightarrow> string" where
  "blank_ws_only l = (if list_all is_sp_tab l then [] else l)"

fun common_prefix :: "string \<Rightarrow> string \<Rightarrow> string" where
  "common_prefix (x # xs) (y # ys) = (if x = y then x # common_prefix xs ys else [])"
| "common_prefix xs ys = []"

definition margin_step :: "string option \<Rightarrow> string \<Rightarrow> string option" where
  "margin_step margin indent =
     (case margin of
        None \<Rightarrow> Some indent
      | Some m \<Rightarrow>
          if startswith indent m then Some m
          else if startswith m indent then Some indent
          else Some (common_prefix m indent))"

definition dedent :: "string \<Rightarrow> string" where
  "dedent text =
     (let ls = map blank_ws_only (py_split [CHR 0x0A] text);
          indents = map (takeWhile is_sp_tab) (filter (\<lambda>l. l \<noteq> []) ls);
          margin = foldl margin_step None indents
      in case margin of
           None \<Rightarrow> py_join [CHR 0x0A] ls
         | Some m \<Rightarrow>
             if m = [] then py_join [CHR 0x0A] ls
             else py_join [CHR 0x0A]
                    (map (\<lambda>l. if startswith l m then drop (length m) l else l) ls))"

text \<open>
  The substitution of \<^verbatim>\<open>^"""\n(?P<content>.*)\n"""$\<close> (DOTALL, not MULTILINE) by its
  group: the text must start with the delimiter line; the greedy group takes the longest
  content that is followed by a newline and the delimiter at the end of the text, or
  right before a final newline, which then stays.
\<close>

definition quote3 :: string where
  "quote3 = [CHR 0x22, CHR 0x22, CHR 0x22]"

definition strip_quotes :: "string \<Rightarrow> string" where
  "strip_quotes s =
     (let n = length s in
      if startswith s (quote3 @ [CHR 0x0A]) then
        (if 8 \<le> n \<and> drop (n - 4) s = CHR 0x0A # quote3
         then take (n - 8) (drop 4 s)
         else if 9 \<le> n \<and> drop (n - 5) s = CHR 0x0A # quote3 @ [CHR 0x0A]
         then take (n - 9) (drop 4 s) @ [CHR 0x0A]
         else s)
      else s)"

text \<open>
  \<^verbatim>\<open>STEP_PARAM_RE = <(.+?)>\<close>: a \<open><\<close>, then at least one character, then the nearest
  \<open>>\<close> behind it; the dot does not match a newline. \<open>find_close\<close> reads behind the
  first character of the name: the rest of the name and the text after the \<open>>\<close>.
\<close>

fun find_close :: "string \<Rightarrow> (string \<times> string) option" where
  "find_close [] = None"
| "find_close (c # cs) =
     (if c = CHR ''>'' then Some ([], cs)
      else if c = CHR 0x0A then None
      else (case find_close cs of None \<Rightarrow> None | Some (v, r) \<Rightarrow> Some (c # v, r)))"

text \<open>
  \<^verbatim>\<open>STEP_PARAM_RE.sub(replacer, text)\<close> with \<^verbatim>\<open>replacer\<close> returning
  \<^verbatim>\<open>str(context[varname])\<close>; the context maps a name to the string form of its value.
  The first placeholder, from the left, whose name is not a key raises \<^verbatim>\<open>KeyError\<close>.
\<close>

function sub_params :: "(string \<rightharpoonup> string) \<Rightarrow> string \<Rightarrow> error + string" where
  "sub_params context [] = Inr []"
| "sub_params context (c # cs) =
     (case (if c = CHR ''<'' then
              (case cs of
                 [] \<Rightarrow> None
               | d # ds \<Rightarrow>
                   if d = CHR 0x0A then None
                   else (case find_close ds of None \<Rightarrow> None | Some (v, r) \<Rightarrow> Some (d # v, r)))
            else None) of
        Some (varname, r) \<Rightarrow>
          (case context varname of
             None \<Rightarrow> Inl (KeyError varname)
           | Some val \<Rightarrow>
               (case sub_params context r of Inl e \<Rightarrow> Inl e | Inr t \<Rightarrow> Inr (val @ t)))
      | None \<Rightarrow>
          (case sub_params context cs of Inl e \<Rightarrow> Inl e | Inr t \<Rightarrow> Inr (c # t)))"
  by pat_completeness auto
termination
proof -
  have shorter: "find_close cs = Some (v, r) \<Longrightarrow> length r < length cs" for cs v r
    by (induction cs arbitrary: v r) (auto split: if_splits option.splits)
  show ?thesis
    by (relation "measure (\<lambda>(context, s). length s)")
      (auto split: if_splits list.splits option.splits dest: shorter)
qed

section \<open>Document model\<close>

text \<open>
  Objects are referenced by identity: a back-reference is the identity \<open>oid\<close> of the
  object it points to, \<open>None\<close> for Python's \<^verbatim>\<open>None\<close>. The \<open>oid\<close> of an object is
  not one of its fields: two objects with different \<open>oid\<close>s may be equal by value.
  The parser gives a ScenarioTemplate or a Background the number of the line that
  creates it and the Feature the number 0.

  An instance attribute that \<^verbatim>\<open>__init__\<close> may leave unassigned is an option:
  \<open>p_name\<close> is the attribute \<^verbatim>\<open>_name\<close> of a Step and \<open>line_number\<close> its
  \<^verbatim>\<open>line_number\<close>; \<open>None\<close> means that the attribute does not exist, so that reading
  it raises \<^verbatim>\<open>AttributeError\<close>. \<open>p_steps\<close> is \<^verbatim>\<open>_steps\<close>.
\<close>

type_synonym oid = nat

record Step =
  type :: mode
  p_name :: "string option"
  line_number :: "nat option"
  indent :: nat
  keyword :: string
  docstring :: "string option"
  datatable :: "string list list option"
  failed :: bool
  scenario :: "oid option"
  background :: "oid option"
  lines :: "string list"

record Examples =
  example_params :: "string list"
  examples :: "string list list"
  line_number :: "nat option"
  name :: "string option"

record ScenarioTemplate =
  oid :: oid
  feature :: "oid option"
  name :: string
  line_number :: nat
  templated :: bool
  tags :: "string set"
  examples :: Examples
  p_steps :: "Step list"

record Background =
  oid :: oid
  feature :: "oid option"
  line_number :: nat
  steps :: "Step list"

record Scenario =
  feature :: "oid option"
  name :: string
  line_number :: nat
  steps :: "Step list"
  tags :: "string set"

text \<open>
  \<open>scenarios\<close> is the \<^verbatim>\<open>OrderedDict\<close>: an association list in insertion order with
  distinct keys; \<^verbatim>\<open>d[k] = v\<close> is \<^const>\<open>AList.update\<close>, which replaces the value of
  a key already present in place and appends a new key at the end.
\<close>

record Feature =
  oid :: oid
  scenarios :: "(string \<times> ScenarioTemplate) list"
  filename :: string
  rel_filename :: string
  name :: "string option"
  tags :: "string set"
  background :: "Background option"
  line_number :: nat
  description :: string

subsection \<open>Step\<close>

text \<open>
  \<^verbatim>\<open>Step.__init__\<close> (lines 314-331) assigns \<^verbatim>\<open>type\<close>, \<^verbatim>\<open>indent\<close>, \<^verbatim>\<open>keyword\<close>,
  \<^verbatim>\<open>docstring\<close>, \<^verbatim>\<open>datatable\<close>, \<^verbatim>\<open>scenario\<close>, \<^verbatim>\<open>background\<close> and \<^verbatim>\<open>lines\<close>.
  Its parameters \<^verbatim>\<open>name\<close> and \<^verbatim>\<open>line_number\<close> are not stored: the body has no
  \<^verbatim>\<open>self.name = name\<close> and no \<^verbatim>\<open>self.line_number = line_number\<close>, and the dataclass
  fields \<^verbatim>\<open>_name\<close> and \<^verbatim>\<open>line_number\<close> have no default. \<^verbatim>\<open>failed\<close> is read from the
  class attribute the dataclass keeps for its default \<^verbatim>\<open>False\<close>.
\<close>

definition Step_init ::
  "mode \<Rightarrow> string \<Rightarrow> nat \<Rightarrow> nat \<Rightarrow> string \<Rightarrow> string option \<Rightarrow> string list list option \<Rightarrow> Step" where
  "Step_init a_type a_name a_line_number a_indent a_keyword a_docstring a_datatable =
     \<lparr>type = a_type, p_name = None, line_number = None, indent = a_indent,
      keyword = a_keyword, docstring = a_docstring, datatable = a_datatable, failed = False,
      scenario = None, background = None, lines = []\<rparr>"

text \<open>The setter of the property \<^verbatim>\<open>name\<close>: \<^verbatim>\<open>step.name = value\<close>.\<close>

definition Step_set_name :: "string \<Rightarrow> Step \<Rightarrow> Step" where
  "Step_set_name v s = s\<lparr>p_name := Some v\<rparr>"

definition Step_add_line :: "string \<Rightarrow> Step \<Rightarrow> Step" where
  "Step_add_line line s = s\<lparr>lines := lines s @ [line]\<rparr>"

text \<open>
  The property \<^verbatim>\<open>Step.name\<close> (lines 340-354). The continuation block is computed
  first; \<^verbatim>\<open>self._name\<close> is read last, and raises when the attribute was never set.
\<close>

definition Step_name :: "Step \<Rightarrow> error + string" where
  "Step_name s =
     (let multilines_content =
            strip_quotes (if lines s \<noteq> [] then dedent (py_join [CHR 0x0A] (lines s)) else [])
      in case p_name s of
           None \<Rightarrow> Inl (AttributeError ''_name'')
         | Some n \<Rightarrow> Inr (py_strip (py_join [CHR 0x0A] ([n] @ [multilines_content]))))"

text \<open>\<^verbatim>\<open>Step.render\<close> (lines 370-375): \<^verbatim>\<open>self.name\<close> is read first.\<close>

definition Step_render :: "(string \<rightharpoonup> string) \<Rightarrow> Step \<Rightarrow> error + string" where
  "Step_render context s =
     (case Step_name s of Inl e \<Rightarrow> Inl e | Inr n \<Rightarrow> sub_params context n)"

subsection \<open>Examples\<close>

definition Examples_init :: Examples where
  "Examples_init = \<lparr>example_params = [], examples = [], line_number = None, name = None\<rparr>"

definition set_param_names :: "string list \<Rightarrow> Examples \<Rightarrow> Examples" where
  "set_param_names keys self = self\<lparr>example_params := keys\<rparr>"

definition add_example :: "string list \<Rightarrow> Examples \<Rightarrow> Examples" where
  "add_example vals self = self\<lparr>Examples.examples := Examples.examples self @ [vals]\<rparr>"

text \<open>
  \<^verbatim>\<open>as_contexts\<close> is a generator: one \<^verbatim>\<open>dict(zip(header, row))\<close> per row (a later
  duplicate of a header name wins), ended by the failing assertion at the first row
  whose length differs from the header's.
\<close>

fun as_contexts_rows :: "string list \<Rightarrow> string list list \<Rightarrow> (error + (string \<rightharpoonup> string)) list" where
  "as_contexts_rows header [] = []"
| "as_contexts_rows header (row # rows) =
     (if length header = length row
      then Inr (map_of (rev (zip header row))) # as_contexts_rows header rows
      else [Inl AssertionError])"

definition as_contexts :: "Examples \<Rightarrow> (error + (string \<rightharpoonup> string)) list" where
  "as_contexts self = as_contexts_rows (example_params self) (Examples.examples self)"

subsection \<open>ScenarioTemplate and Background\<close>

text \<open>
  The first argument of a constructor is the identity of the new object. A method that
  follows \<^verbatim>\<open>self.feature\<close> takes the Feature object that the reference denotes as its
  first argument; following an unset reference raises.
\<close>

definition ScenarioTemplate_init ::
  "oid \<Rightarrow> oid option \<Rightarrow> string \<Rightarrow> nat \<Rightarrow> string set \<Rightarrow> bool \<Rightarrow> ScenarioTemplate" where
  "ScenarioTemplate_init new_oid a_feature a_name line_no a_tags a_templated =
     \<lparr>ScenarioTemplate.oid = new_oid, feature = a_feature, name = a_name,
      line_number = line_no, templated = a_templated, tags = a_tags, examples = Examples_init, p_steps = []\<rparr>"

definition ScenarioTemplate_add_step :: "Step \<Rightarrow> ScenarioTemplate \<Rightarrow> ScenarioTemplate" where
  "ScenarioTemplate_add_step step self =
     self\<lparr>p_steps := p_steps self @ [step\<lparr>Step.scenario := Some (ScenarioTemplate.oid self)\<rparr>]\<rparr>"

definition background_steps_of :: "Feature \<Rightarrow> Step list" where
  "background_steps_of f = (case background f of None \<Rightarrow> [] | Some b \<Rightarrow> Background.steps b)"

text \<open>The property \<^verbatim>\<open>ScenarioTemplate.steps\<close> (lines 249-252).\<close>

definition ScenarioTemplate_steps :: "Feature \<Rightarrow> ScenarioTemplate \<Rightarrow> error + Step list" where
  "ScenarioTemplate_steps f self =
     (case ScenarioTemplate.feature self of
        None \<Rightarrow> Inl (AttributeError ''background'')
      | Some r \<Rightarrow> Inr (background_steps_of f @ p_steps self))"

text \<open>
  The list comprehension of \<^verbatim>\<open>ScenarioTemplate.render\<close> (lines 259-268): for each own
  step, in order, the keyword arguments of \<^verbatim>\<open>Step(...)\<close> are evaluated left to right,
  \<^verbatim>\<open>step.render(context)\<close> first and \<^verbatim>\<open>step.line_number\<close> after it.
\<close>

fun render_steps :: "(string \<rightharpoonup> string) \<Rightarrow> Step list \<Rightarrow> error + Step list" where
  "render_steps context [] = Inr []"
| "render_steps context (step # rest) =
     (case Step_render context step of
        Inl e \<Rightarrow> Inl e
      | Inr nm \<Rightarrow>
          (case Step.line_number step of
             None \<Rightarrow> Inl (AttributeError ''line_number'')
           | Some ln \<Rightarrow>
               (case render_steps context rest of
                  Inl e \<Rightarrow> Inl e
                | Inr ss \<Rightarrow>
                    Inr (Step_init (type step) nm ln (indent step) (keyword step) None None # ss))))"

definition ScenarioTemplate_render ::
  "Feature \<Rightarrow> ScenarioTemplate \<Rightarrow> (string \<rightharpoonup> string) \<Rightarrow> error + Scenario" where
  "ScenarioTemplate_render f self context =
     (case ScenarioTemplate.feature self of
        None \<Rightarrow> Inl (AttributeError ''background'')
      | Some r \<Rightarrow>
          (case (if \<not> templated self then Inr (p_steps self)
                 else render_steps context (p_steps self)) of
             Inl e \<Rightarrow> Inl e
           | Inr scenario_steps \<Rightarrow>
               Inr \<lparr>Scenario.feature = ScenarioTemplate.feature self, name = ScenarioTemplate.name self,
                    line_number = ScenarioTemplate.line_number self,
                    steps = background_steps_of f @ scenario_steps,
                    tags = ScenarioTemplate.tags self\<rparr>))"

definition Background_init :: "oid \<Rightarrow> oid option \<Rightarrow> nat \<Rightarrow> Background" where
  "Background_init new_oid a_feature line_no =
     \<lparr>Background.oid = new_oid, feature = a_feature, line_number = line_no, steps = []\<rparr>"

definition Background_add_step :: "Step \<Rightarrow> Background \<Rightarrow> Background" where
  "Background_add_step step self =
     self\<lparr>Background.steps :=
            Background.steps self @ [step\<lparr>Step.background := Some (Background.oid self)\<rparr>]\<rparr>"

subsection \<open>The heap, and the generated comparison and printing\<close>

text \<open>
  The classes are dataclasses: \<^verbatim>\<open>==\<close> and \<^verbatim>\<open>!=\<close> call the generated \<^verbatim>\<open>__eq__\<close>,
  which compares by value, and formatting an object in an f-string calls the generated
  \<^verbatim>\<open>__repr__\<close>, which prints every field. Both follow the references between the
  objects, so they are functions of a heap: the Feature with the ScenarioTemplates and
  the Background it holds, and the ScenarioTemplates and Backgrounds that it does not
  hold (built by hand, or dropped from the collection). A reference resolves to the
  first object of the heap with its \<open>oid\<close>. A reference that resolves to no object of
  the heap denotes an object of another class: it is equal to itself only, and printing
  it reads no Step. A Step object is held by one list.
\<close>

record heap =
  h_root :: Feature
  h_scenarios :: "ScenarioTemplate list"
  h_backgrounds :: "Background list"

definition heap_scenarios :: "heap \<Rightarrow> ScenarioTemplate list" where
  "heap_scenarios h = map snd (scenarios (h_root h)) @ h_scenarios h"

definition heap_backgrounds :: "heap \<Rightarrow> Background list" where
  "heap_backgrounds h =
     (case background (h_root h) of None \<Rightarrow> [] | Some b \<Rightarrow> [b]) @ h_backgrounds h"

definition deref_feature :: "heap \<Rightarrow> oid option \<Rightarrow> Feature option" where
  "deref_feature h r =
     (case r of None \<Rightarrow> None
      | Some j \<Rightarrow> if Feature.oid (h_root h) = j then Some (h_root h) else None)"

definition deref_scenario :: "heap \<Rightarrow> oid option \<Rightarrow> ScenarioTemplate option" where
  "deref_scenario h r =
     (case r of None \<Rightarrow> None
      | Some j \<Rightarrow> List.find (\<lambda>x. ScenarioTemplate.oid x = j) (heap_scenarios h))"

definition deref_background :: "heap \<Rightarrow> oid option \<Rightarrow> Background option" where
  "deref_background h r =
     (case r of None \<Rightarrow> None
      | Some j \<Rightarrow> List.find (\<lambda>b. Background.oid b = j) (heap_backgrounds h))"

text \<open>
  Both generated methods of \<^verbatim>\<open>Step\<close> read the fields of the object in the order of
  their declaration (lines 302-312) before they do anything else with them; \<^verbatim>\<open>_name\<close>
  and \<^verbatim>\<open>line_number\<close> are the two that may not exist.
\<close>

definition Step_read_fields :: "Step \<Rightarrow> error option" where
  "Step_read_fields s =
     (if p_name s = None then Some (AttributeError ''_name'')
      else if Step.line_number s = None then Some (AttributeError ''line_number'')
      else None)"

text \<open>
  The generated \<^verbatim>\<open>__eq__\<close> (Python 3.11) of two objects of one class is
  \<^verbatim>\<open>(self.f1, self.f2, ...) == (other.f1, other.f2, ...)\<close>: the fields of \<^verbatim>\<open>self\<close>
  are read, then those of \<^verbatim>\<open>other\<close>, and the tuples are compared from the left up to
  the first pair of items that differ. Two items that are the same object are equal
  without a call of \<^verbatim>\<open>__eq__\<close>; two lists of different length are unequal without a
  look at their items. The fields that hold no reference to a ScenarioTemplate or a
  Background come first in each class, and their comparison raises nothing.
\<close>

definition Step_plain_eq :: "Step \<Rightarrow> Step \<Rightarrow> bool" where
  "Step_plain_eq s t =
     (type s = type t \<and> p_name s = p_name t \<and> Step.line_number s = Step.line_number t
      \<and> indent s = indent t \<and> keyword s = keyword t \<and> docstring s = docstring t
      \<and> datatable s = datatable t \<and> failed s = failed t)"

definition ScenarioTemplate_plain_eq :: "ScenarioTemplate \<Rightarrow> ScenarioTemplate \<Rightarrow> bool" where
  "ScenarioTemplate_plain_eq x y =
     (ScenarioTemplate.feature x = ScenarioTemplate.feature y
      \<and> ScenarioTemplate.name x = ScenarioTemplate.name y
      \<and> ScenarioTemplate.line_number x = ScenarioTemplate.line_number y
      \<and> templated x = templated y
      \<and> ScenarioTemplate.tags x = ScenarioTemplate.tags y
      \<and> ScenarioTemplate.examples x = ScenarioTemplate.examples y)"

definition Background_plain_eq :: "Background \<Rightarrow> Background \<Rightarrow> bool" where
  "Background_plain_eq x y =
     (Background.feature x = Background.feature y
      \<and> Background.line_number x = Background.line_number y)"

text \<open>
  The comparison of two distinct objects. It descends from a ScenarioTemplate or a
  Background into its steps, and from two steps into the objects they reference when
  these are not the same object. \<open>stack\<close> holds the pairs of objects whose comparison
  is under way: meeting one of them again means that the recursion never ends, which
  Python reports as \<^verbatim>\<open>RecursionError\<close>. \<open>fuel\<close> bounds the depth of the descent.
\<close>

datatype obj_id = Feature_id oid | Scenario_id oid | Background_id oid

function Step_list_eq :: "heap \<Rightarrow> nat \<Rightarrow> (obj_id \<times> obj_id) list \<Rightarrow> Step list \<Rightarrow> Step list \<Rightarrow> error + bool"
  and Step_eq :: "heap \<Rightarrow> nat \<Rightarrow> (obj_id \<times> obj_id) list \<Rightarrow> Step \<Rightarrow> Step \<Rightarrow> error + bool"
  and ScenarioTemplate_eq ::
    "heap \<Rightarrow> nat \<Rightarrow> (obj_id \<times> obj_id) list \<Rightarrow> ScenarioTemplate \<Rightarrow> ScenarioTemplate \<Rightarrow> error + bool"
  and Background_eq ::
    "heap \<Rightarrow> nat \<Rightarrow> (obj_id \<times> obj_id) list \<Rightarrow> Background \<Rightarrow> Background \<Rightarrow> error + bool"
where
  "Step_list_eq h fuel stack [] [] = Inr True"
| "Step_list_eq h fuel stack (s # ss) (t # ts) =
     (if length ss \<noteq> length ts then Inr False
      else (case Step_eq h fuel stack s t of
              Inl e \<Rightarrow> Inl e
            | Inr b \<Rightarrow> if b then Step_list_eq h fuel stack ss ts else Inr False))"
| "Step_list_eq h fuel stack [] (t # ts) = Inr False"
| "Step_list_eq h fuel stack (s # ss) [] = Inr False"
| "Step_eq h fuel stack s t =
     (case Step_read_fields s of
        Some e \<Rightarrow> Inl e
      | None \<Rightarrow>
     (case Step_read_fields t of
        Some e \<Rightarrow> Inl e
      | None \<Rightarrow>
     if \<not> Step_plain_eq s t then Inr False
     else
     (case (if Step.scenario s = Step.scenario t then Inr True
            else (case deref_scenario h (Step.scenario s) of
                    None \<Rightarrow> Inr False
                  | Some x \<Rightarrow>
                      (case deref_scenario h (Step.scenario t) of
                         None \<Rightarrow> Inr False
                       | Some y \<Rightarrow> ScenarioTemplate_eq h fuel stack x y))) of
        Inl e \<Rightarrow> Inl e
      | Inr b \<Rightarrow>
     if \<not> b then Inr False
     else
     (case (if Step.background s = Step.background t then Inr True
            else (case deref_background h (Step.background s) of
                    None \<Rightarrow> Inr False
                  | Some x \<Rightarrow>
                      (case deref_background h (Step.background t) of
                         None \<Rightarrow> Inr False
                       | Some y \<Rightarrow> Background_eq h fuel stack x y))) of
        Inl e \<Rightarrow> Inl e
      | Inr b \<Rightarrow> Inr (b \<and> lines s = lines t)))))"
| "ScenarioTemplate_eq h fuel stack x y =
     (if \<not> ScenarioTemplate_plain_eq x y then Inr False
      else if (Scenario_id (ScenarioTemplate.oid x), Scenario_id (ScenarioTemplate.oid y)) \<in> set stack
      then Inl RecursionError
      else (case fuel of
              0 \<Rightarrow> Inl RecursionError
            | Suc n \<Rightarrow>
                Step_list_eq h n
                  ((Scenario_id (ScenarioTemplate.oid x), Scenario_id (ScenarioTemplate.oid y)) # stack)
                  (p_steps x) (p_steps y)))"
| "Background_eq h fuel stack x y =
     (if \<not> Background_plain_eq x y then Inr False
      else if (Background_id (Background.oid x), Background_id (Background.oid y)) \<in> set stack
      then Inl RecursionError
      else (case fuel of
              0 \<Rightarrow> Inl RecursionError
            | Suc n \<Rightarrow>
                Step_list_eq h n
                  ((Background_id (Background.oid x), Background_id (Background.oid y)) # stack)
                  (Background.steps x) (Background.steps y)))"
  by pat_completeness auto

termination
  by (relation "measures
        [case_sum (case_sum (\<lambda>(h, fuel, r). fuel) (\<lambda>(h, fuel, r). fuel))
                  (case_sum (\<lambda>(h, fuel, r). fuel) (\<lambda>(h, fuel, r). fuel)),
         case_sum (case_sum (\<lambda>(h, fuel, stack, ss, ts). Suc (Suc (length ss))) (\<lambda>r. Suc 0))
                  (\<lambda>r. 0)]")
    auto

text \<open>
  A descent passes through pairwise different pairs of objects of the heap and of
  \<^verbatim>\<open>self\<close>, so this much fuel is never used up before a pair is met again.
\<close>

definition eq_fuel :: "heap \<Rightarrow> nat" where
  "eq_fuel h =
     Suc ((Suc (length (heap_scenarios h) + length (heap_backgrounds h)))
          * (Suc (length (heap_scenarios h) + length (heap_backgrounds h))))"

text \<open>
  \<^verbatim>\<open>step.scenario != self\<close> (line 281) and \<^verbatim>\<open>step.background != self\<close> (line 399).
  \<^verbatim>\<open>None\<close> differs from every object. \<^verbatim>\<open>!=\<close> negates the \<^verbatim>\<open>__eq__\<close> of the referenced
  object, called with \<^verbatim>\<open>self\<close> as the other one; when the two are the same object
  every field is the same object as itself and nothing is descended into.
\<close>

definition ScenarioTemplate_ne :: "heap \<Rightarrow> oid option \<Rightarrow> ScenarioTemplate \<Rightarrow> error + bool" where
  "ScenarioTemplate_ne h r self =
     (case r of
        None \<Rightarrow> Inr True
      | Some j \<Rightarrow>
          if j = ScenarioTemplate.oid self then Inr False
          else (case deref_scenario h r of
                  None \<Rightarrow> Inr True
                | Some x \<Rightarrow> map_sum id Not (ScenarioTemplate_eq h (eq_fuel h) [] x self)))"

definition Background_ne :: "heap \<Rightarrow> oid option \<Rightarrow> Background \<Rightarrow> error + bool" where
  "Background_ne h r self =
     (case r of
        None \<Rightarrow> Inr True
      | Some j \<Rightarrow>
          if j = Background.oid self then Inr False
          else (case deref_background h r of
                  None \<Rightarrow> Inr True
                | Some x \<Rightarrow> map_sum id Not (Background_eq h (eq_fuel h) [] x self)))"

text \<open>
  The generated \<^verbatim>\<open>__repr__\<close> prints the fields in the order of their declaration, an
  object held or referenced by a field with that object's own \<^verbatim>\<open>__repr__\<close>, and
  \<^verbatim>\<open>...\<close> in place of an object whose printing is under way (\<open>stack\<close>). Only the
  exception is modelled: \<open>None\<close> says that the text is built. The fields that reach
  a Step are, in this order: of a Feature \<^verbatim>\<open>scenarios\<close> and \<^verbatim>\<open>background\<close>, of a
  ScenarioTemplate \<^verbatim>\<open>feature\<close> and \<^verbatim>\<open>_steps\<close>, of a Background \<^verbatim>\<open>feature\<close> and
  \<^verbatim>\<open>steps\<close>, of a Step (behind \<^verbatim>\<open>_name\<close> and \<^verbatim>\<open>line_number\<close>) \<^verbatim>\<open>scenario\<close> and
  \<^verbatim>\<open>background\<close>.
\<close>

function repr_Feature :: "heap \<Rightarrow> nat \<Rightarrow> obj_id list \<Rightarrow> Feature \<Rightarrow> error option"
  and repr_scenarios :: "heap \<Rightarrow> nat \<Rightarrow> obj_id list \<Rightarrow> ScenarioTemplate list \<Rightarrow> error option"
  and repr_ScenarioTemplate :: "heap \<Rightarrow> nat \<Rightarrow> obj_id list \<Rightarrow> ScenarioTemplate \<Rightarrow> error option"
  and repr_Background :: "heap \<Rightarrow> nat \<Rightarrow> obj_id list \<Rightarrow> Background \<Rightarrow> error option"
  and repr_steps :: "heap \<Rightarrow> nat \<Rightarrow> obj_id list \<Rightarrow> Step list \<Rightarrow> error option"
  and repr_Step :: "heap \<Rightarrow> nat \<Rightarrow> obj_id list \<Rightarrow> Step \<Rightarrow> error option"
where
  "repr_Feature h fuel stack f =
     (if Feature_id (Feature.oid f) \<in> set stack then None
      else (case fuel of
              0 \<Rightarrow> Some RecursionError
            | Suc n \<Rightarrow>
                (case repr_scenarios h n (Feature_id (Feature.oid f) # stack) (map snd (scenarios f)) of
                   Some e \<Rightarrow> Some e
                 | None \<Rightarrow>
                     (case background f of
                        None \<Rightarrow> None
                      | Some b \<Rightarrow> repr_Background h n (Feature_id (Feature.oid f) # stack) b))))"
| "repr_scenarios h fuel stack [] = None"
| "repr_scenarios h fuel stack (x # xs) =
     (case repr_ScenarioTemplate h fuel stack x of
        Some e \<Rightarrow> Some e
      | None \<Rightarrow> repr_scenarios h fuel stack xs)"
| "repr_ScenarioTemplate h fuel stack x =
     (if Scenario_id (ScenarioTemplate.oid x) \<in> set stack then None
      else (case fuel of
              0 \<Rightarrow> Some RecursionError
            | Suc n \<Rightarrow>
                (case (case deref_feature h (ScenarioTemplate.feature x) of
                         None \<Rightarrow> None
                       | Some f \<Rightarrow> repr_Feature h n (Scenario_id (ScenarioTemplate.oid x) # stack) f) of
                   Some e \<Rightarrow> Some e
                 | None \<Rightarrow> repr_steps h n (Scenario_id (ScenarioTemplate.oid x) # stack) (p_steps x))))"
| "repr_Background h fuel stack b =
     (if Background_id (Background.oid b) \<in> set stack then None
      else (case fuel of
              0 \<Rightarrow> Some RecursionError
            | Suc n \<Rightarrow>
                (case (case deref_feature h (Background.feature b) of
                         None \<Rightarrow> None
                       | Some f \<Rightarrow> repr_Feature h n (Background_id (Background.oid b) # stack) f) of
                   Some e \<Rightarrow> Some e
                 | None \<Rightarrow> repr_steps h n (Background_id (Background.oid b) # stack) (Background.steps b))))"
| "repr_steps h fuel stack [] = None"
| "repr_steps h fuel stack (s # ss) =
     (case repr_Step h fuel stack s of
        Some e \<Rightarrow> Some e
      | None \<Rightarrow> repr_steps h fuel stack ss)"
| "repr_Step h fuel stack s =
     (case Step_read_fields s of
        Some e \<Rightarrow> Some e
      | None \<Rightarrow>
          (case (case deref_scenario h (Step.scenario s) of
                   None \<Rightarrow> None
                 | Some x \<Rightarrow> repr_ScenarioTemplate h fuel stack x) of
             Some e \<Rightarrow> Some e
           | None \<Rightarrow>
               (case deref_background h (Step.background s) of
                  None \<Rightarrow> None
                | Some b \<Rightarrow> repr_Background h fuel stack b)))"
  by pat_completeness auto

termination
  by (relation "measures
        [case_sum (case_sum (\<lambda>(h, fuel, r). fuel)
                            (case_sum (\<lambda>(h, fuel, r). fuel) (\<lambda>(h, fuel, r). fuel)))
                  (case_sum (\<lambda>(h, fuel, r). fuel)
                            (case_sum (\<lambda>(h, fuel, r). fuel) (\<lambda>(h, fuel, r). fuel))),
         case_sum (case_sum (\<lambda>r. 0)
                            (case_sum (\<lambda>(h, fuel, stack, xs). Suc (length xs)) (\<lambda>r. 0)))
                  (case_sum (\<lambda>r. 0)
                            (case_sum (\<lambda>(h, fuel, stack, ss). Suc (Suc (length ss))) (\<lambda>r. Suc 0)))]")
    auto

text \<open>
  The objects whose printing is under way are pairwise different objects of the heap
  and \<^verbatim>\<open>self\<close>, so this much fuel is never used up.
\<close>

definition repr_fuel :: "heap \<Rightarrow> nat" where
  "repr_fuel h = Suc (Suc (Suc (length (heap_scenarios h) + length (heap_backgrounds h))))"

text \<open>\<^verbatim>\<open>{self}\<close>, \<^verbatim>\<open>{step.background}\<close> and \<^verbatim>\<open>{step.scenario}\<close> in an f-string.\<close>

definition format_ScenarioTemplate :: "heap \<Rightarrow> ScenarioTemplate \<Rightarrow> error option" where
  "format_ScenarioTemplate h x = repr_ScenarioTemplate h (repr_fuel h) [] x"

definition format_Background :: "heap \<Rightarrow> Background \<Rightarrow> error option" where
  "format_Background h b = repr_Background h (repr_fuel h) [] b"

definition format_scenario_ref :: "heap \<Rightarrow> oid option \<Rightarrow> error option" where
  "format_scenario_ref h r =
     (case deref_scenario h r of None \<Rightarrow> None | Some x \<Rightarrow> format_ScenarioTemplate h x)"

definition format_background_ref :: "heap \<Rightarrow> oid option \<Rightarrow> error option" where
  "format_background_ref h r =
     (case deref_background h r of None \<Rightarrow> None | Some b \<Rightarrow> format_Background h b)"

subsection \<open>Validator\<close>

text \<open>
  A \<^verbatim>\<open>ValidationError\<close> carries the fixed words of its message. The message is an
  f-string, built before the exception is raised, its replacement fields from left to
  right: \<^verbatim>\<open>{step}\<close> calls \<^verbatim>\<open>Step.__str__\<close> (lines 361-363), which reads the property
  \<^verbatim>\<open>name\<close>; the other fields call the generated \<^verbatim>\<open>__repr__\<close>. An exception raised
  while the message is built replaces the \<^verbatim>\<open>ValidationError\<close>.
\<close>

definition str_Step_error :: "Step \<Rightarrow> error option" where
  "str_Step_error step = (case Step_name step of Inl e \<Rightarrow> Some e | Inr n \<Rightarrow> None)"

definition raise_ValidationError :: "error option list \<Rightarrow> string \<Rightarrow> error + unit" where
  "raise_ValidationError parts msg =
     (case List.map_filter id parts of [] \<Rightarrow> Inl (ValidationError msg) | e # es \<Rightarrow> Inl e)"

text \<open>The loop of \<^verbatim>\<open>ScenarioTemplate.validate\<close> (lines 275-282).\<close>

fun validate_scenario_steps :: "heap \<Rightarrow> ScenarioTemplate \<Rightarrow> Step list \<Rightarrow> error + unit" where
  "validate_scenario_steps h self [] = Inr ()"
| "validate_scenario_steps h self (step # rest) =
     (if Step.background step \<noteq> None then
        raise_ValidationError
          [str_Step_error step, format_background_ref h (Step.background step),
           format_ScenarioTemplate h self]
          ''Step is connected to a background, but it should not since it is part of a scenario''
      else (case ScenarioTemplate_ne h (Step.scenario step) self of
              Inl e \<Rightarrow> Inl e
            | Inr differs \<Rightarrow>
                if differs then
                  raise_ValidationError
                    [str_Step_error step, format_ScenarioTemplate h self]
                    ''Step is not connected to the scenario''
                else validate_scenario_steps h self rest))"

text \<open>\<^verbatim>\<open>ScenarioTemplate.validate\<close> (lines 272-282).\<close>

definition ScenarioTemplate_validate :: "heap \<Rightarrow> ScenarioTemplate \<Rightarrow> error + unit" where
  "ScenarioTemplate_validate h self =
     (case ScenarioTemplate.feature self of
        None \<Rightarrow> Inl (ValidationError ''Missing feature'')
      | Some r \<Rightarrow> validate_scenario_steps h self (p_steps self))"

text \<open>The loop of \<^verbatim>\<open>Background.validate\<close> (lines 398-405).\<close>

fun validate_background_steps :: "heap \<Rightarrow> Background \<Rightarrow> Step list \<Rightarrow> error + unit" where
  "validate_background_steps h self [] = Inr ()"
| "validate_background_steps h self (step # rest) =
     (case Background_ne h (Step.background step) self of
        Inl e \<Rightarrow> Inl e
      | Inr differs \<Rightarrow>
          if differs then
            raise_ValidationError
              [str_Step_error step, format_Background h self]
              ''Step is not connected to the background''
          else if Step.scenario step \<noteq> None then
            raise_ValidationError
              [str_Step_error step, format_scenario_ref h (Step.scenario step),
               format_Background h self]
              ''Step is connected to a scenario, but it is already part of a background''
          else validate_background_steps h self rest)"

text \<open>\<^verbatim>\<open>Background.validate\<close> (lines 395-405).\<close>

definition Background_validate :: "heap \<Rightarrow> Background \<Rightarrow> error + unit" where
  "Background_validate h self =
     (case Background.feature self of
        None \<Rightarrow>
          raise_ValidationError [format_Background h self]
            ''Background not connected to a feature''
      | Some r \<Rightarrow> validate_background_steps h self (Background.steps self))"

text \<open>The loop of \<^verbatim>\<open>Feature.validate\<close> (lines 210-215).\<close>

fun validate_scenarios :: "heap \<Rightarrow> (string \<times> ScenarioTemplate) list \<Rightarrow> error + unit" where
  "validate_scenarios h [] = Inr ()"
| "validate_scenarios h ((scenario_name, sc) # rest) =
     (if scenario_name \<noteq> ScenarioTemplate.name sc then
        Inl (ValidationError ''Expected scenario_name and scenario to be the same'')
      else (case ScenarioTemplate_validate h sc of
              Inl e \<Rightarrow> Inl e
            | Inr u \<Rightarrow> validate_scenarios h rest))"

text \<open>\<^verbatim>\<open>Feature.validate\<close> (lines 209-218), called on the Feature of the heap.\<close>

definition Feature_validate_in :: "heap \<Rightarrow> error + unit" where
  "Feature_validate_in h =
     (case validate_scenarios h (scenarios (h_root h)) of
        Inl e \<Rightarrow> Inl e
      | Inr u \<Rightarrow>
          (case background (h_root h) of
             None \<Rightarrow> Inr ()
           | Some b \<Rightarrow> Background_validate h b))"

text \<open>
  \<^verbatim>\<open>Feature.validate\<close> on a heap in which the Feature holds every ScenarioTemplate and
  every Background, as after \<^verbatim>\<open>parse_feature\<close>.
\<close>

definition Feature_validate :: "Feature \<Rightarrow> error + unit" where
  "Feature_validate self =
     Feature_validate_in \<lparr>h_root = self, h_scenarios = [], h_backgrounds = []\<rparr>"

section \<open>Parse state machine\<close>

text \<open>
  The local variables of \<^verbatim>\<open>parse_feature\<close> (lines 98-114), prefixed \<open>l_\<close>. The
  objects under construction live in \<open>l_feature\<close>. \<open>l_scenario\<close> is the variable
  \<^verbatim>\<open>scenario\<close>: the open ScenarioTemplate is the one most recently created, which is
  registered in \<^verbatim>\<open>feature.scenarios\<close> under its name, so the variable is modelled by
  that key. \<open>l_step\<close> is the variable \<^verbatim>\<open>step\<close>: the active Step is the one most
  recently created, the last element of the step list it was added to.
\<close>

datatype step_ref = InBackground | InScenario

record pstate =
  l_feature :: Feature
  l_scenario :: "string option"
  l_mode :: "mode option"
  l_prev_mode :: "mode option"
  l_description :: "string list"
  l_step :: "step_ref option"
  l_multiline_step :: bool
  l_prev_line :: "string option"

definition Feature_init :: "string \<Rightarrow> string \<Rightarrow> Feature" where
  "Feature_init abs_filename a_rel_filename =
     \<lparr>Feature.oid = 0, scenarios = [], filename = abs_filename, rel_filename = a_rel_filename,
      name = None, tags = {}, background = None, line_number = 1, description = []\<rparr>"

definition initial_state :: "string \<Rightarrow> string \<Rightarrow> pstate" where
  "initial_state abs_filename a_rel_filename =
     \<lparr>l_feature = Feature_init abs_filename a_rel_filename, l_scenario = None, l_mode = None,
      l_prev_mode = None, l_description = [], l_step = None, l_multiline_step = False,
      l_prev_line = None\<rparr>"

definition open_scenario :: "pstate \<Rightarrow> ScenarioTemplate option" where
  "open_scenario st =
     (case l_scenario st of None \<Rightarrow> None | Some k \<Rightarrow> map_of (scenarios (l_feature st)) k)"

definition last_option :: "'a list \<Rightarrow> 'a option" where
  "last_option xs = (if xs = [] then None else Some (last xs))"

definition map_last :: "('a \<Rightarrow> 'a) \<Rightarrow> 'a list \<Rightarrow> 'a list" where
  "map_last g xs = (if xs = [] then [] else butlast xs @ [g (last xs)])"

definition active_step :: "pstate \<Rightarrow> Step option" where
  "active_step st =
     (case l_step st of
        None \<Rightarrow> None
      | Some InBackground \<Rightarrow>
          (case background (l_feature st) of
             None \<Rightarrow> None
           | Some b \<Rightarrow> last_option (Background.steps b))
      | Some InScenario \<Rightarrow>
          (case open_scenario st of None \<Rightarrow> None | Some sc \<Rightarrow> last_option (p_steps sc)))"

text \<open>Updates of the open ScenarioTemplate and of the Background, in place.\<close>

definition update_scenario :: "(ScenarioTemplate \<Rightarrow> ScenarioTemplate) \<Rightarrow> pstate \<Rightarrow> pstate" where
  "update_scenario g st =
     (case l_scenario st of
        None \<Rightarrow> st
      | Some k \<Rightarrow>
          st\<lparr>l_feature := (l_feature st)\<lparr>scenarios := AList.map_entry k g (scenarios (l_feature st))\<rparr>\<rparr>)"

definition update_background :: "(Background \<Rightarrow> Background) \<Rightarrow> pstate \<Rightarrow> pstate" where
  "update_background g st =
     st\<lparr>l_feature := (l_feature st)\<lparr>background := map_option g (background (l_feature st))\<rparr>\<rparr>"

text \<open>\<^verbatim>\<open>step.add_line(line)\<close> on the active step (line 125).\<close>

definition add_line_active :: "string \<Rightarrow> pstate \<Rightarrow> pstate" where
  "add_line_active line st =
     (case l_step st of
        None \<Rightarrow> st
      | Some InBackground \<Rightarrow>
          update_background
            (\<lambda>b. b\<lparr>Background.steps := map_last (Step_add_line line) (Background.steps b)\<rparr>) st
      | Some InScenario \<Rightarrow>
          update_scenario (\<lambda>sc. sc\<lparr>p_steps := map_last (Step_add_line line) (p_steps sc)\<rparr>) st)"

text \<open>
  The test of line 122:
  \<^verbatim>\<open>step and (step.indent < line_indent or ((not unindented_line) and multiline_step))\<close>.
\<close>

definition continues :: "pstate \<Rightarrow> nat \<Rightarrow> string \<Rightarrow> bool" where
  "continues st line_indent unindented_line =
     (case active_step st of
        None \<Rightarrow> False
      | Some step \<Rightarrow> indent step < line_indent \<or> (unindented_line = [] \<and> l_multiline_step st))"

text \<open>The branch \<^verbatim>\<open>if mode == types.FEATURE\<close> (lines 143-156).\<close>

definition feature_branch :: "string \<Rightarrow> nat \<Rightarrow> string \<Rightarrow> pstate \<Rightarrow> error + pstate" where
  "feature_branch a_filename line_no clean_line st =
     (if l_prev_mode st = None \<or> l_prev_mode st = Some TAG then
        Inr (st\<lparr>l_feature := (l_feature st)
               \<lparr>Feature.name := Some (snd (parse_line clean_line)),
                Feature.line_number := line_no,
                Feature.tags := get_tags (l_prev_line st)\<rparr>\<rparr>)
      else if l_prev_mode st = Some FEATURE then
        Inr (st\<lparr>l_description := l_description st @ [clean_line]\<rparr>)
      else
        Inl (FeatureError ''Multiple features are not allowed in a single feature file''
               line_no clean_line a_filename))"

text \<open>
  The chain \<^verbatim>\<open>if mode in [SCENARIO, SCENARIO_OUTLINE] ... elif ...\<close> (lines 163-189).
  \<^verbatim>\<open>scenario.examples\<close> and \<^verbatim>\<open>scenario.add_step\<close> on \<^verbatim>\<open>scenario = None\<close> raise
  \<^verbatim>\<open>AttributeError\<close>.
\<close>

definition emit ::
  "mode option \<Rightarrow> nat \<Rightarrow> nat \<Rightarrow> string \<Rightarrow> string \<Rightarrow> string \<Rightarrow> pstate \<Rightarrow> error + pstate" where
  "emit mode line_no line_indent kw parsed_line stripped_line st =
     (if mode = Some SCENARIO \<or> mode = Some SCENARIO_OUTLINE then
        Inr (st\<lparr>l_scenario := Some parsed_line,
                 l_feature := (l_feature st)
                   \<lparr>scenarios :=
                      AList.update parsed_line
                        (ScenarioTemplate_init line_no (Some (Feature.oid (l_feature st)))
                           parsed_line line_no (get_tags (l_prev_line st))
                           (mode = Some SCENARIO_OUTLINE))
                        (scenarios (l_feature st))\<rparr>\<rparr>)
      else if mode = Some BACKGROUND then
        Inr (st\<lparr>l_feature := (l_feature st)
                   \<lparr>background :=
                      Some (Background_init line_no (Some (Feature.oid (l_feature st))) line_no)\<rparr>\<rparr>)
      else if mode = Some EXAMPLES then
        (if l_scenario st = None then Inl (AttributeError ''examples'')
         else Inr (update_scenario
                (\<lambda>sc. sc\<lparr>ScenarioTemplate.examples :=
                           (ScenarioTemplate.examples sc)\<lparr>Examples.line_number := Some line_no\<rparr>\<rparr>)
                (st\<lparr>l_mode := Some EXAMPLES_HEADERS\<rparr>)))
      else if mode = Some EXAMPLES_HEADERS then
        (if l_scenario st = None then Inl (AttributeError ''examples'')
         else Inr ((update_scenario
                (\<lambda>sc. sc\<lparr>ScenarioTemplate.examples :=
                           set_param_names (filter (\<lambda>l. l \<noteq> []) (split_line parsed_line))
                             (ScenarioTemplate.examples sc)\<rparr>) st)
               \<lparr>l_mode := Some EXAMPLE_LINE\<rparr>))
      else if mode = Some EXAMPLE_LINE then
        (if l_scenario st = None then Inl (AttributeError ''examples'')
         else Inr (update_scenario
                (\<lambda>sc. sc\<lparr>ScenarioTemplate.examples :=
                           add_example (split_line stripped_line) (ScenarioTemplate.examples sc)\<rparr>)
                st))
      else
        (case mode of
           None \<Rightarrow> Inr st
         | Some m \<Rightarrow>
             if m = FEATURE \<or> m = TAG then Inr st
             else
               (let step = Step_init m parsed_line line_no line_indent kw None None in
                if background (l_feature st) \<noteq> None \<and> l_scenario st = None then
                  Inr ((update_background (Background_add_step step) st)
                         \<lparr>l_step := Some InBackground\<rparr>)
                else if l_scenario st = None then Inl (AttributeError ''add_step'')
                else
                  Inr ((update_scenario (ScenarioTemplate_add_step step) st)
                         \<lparr>l_step := Some InScenario\<rparr>))))"

text \<open>
  The body of the loop from line 130 on, for a line that does not continue a step:
  \<open>st\<close> is the state after the \<^verbatim>\<open>else\<close> branch of line 127.
  \<^verbatim>\<open>prev_mode not in types.FEATURE\<close> tests whether the token of the previous mode
  occurs in the token of Feature; among the mode tokens only Feature's own does.
\<close>

definition process_line :: "string \<Rightarrow> pstate \<Rightarrow> nat \<Rightarrow> nat \<Rightarrow> string \<Rightarrow> error + pstate" where
  "process_line a_filename st line_no line_indent line =
     (let stripped_line = py_strip line;
          clean_line = strip_comments line
      in
      if clean_line = [] \<and> (l_prev_mode st = None \<or> l_prev_mode st \<noteq> Some FEATURE) then
        Inr st
      else
        (let mode = (case get_step_type clean_line of Some t \<Rightarrow> Some t | None \<Rightarrow> l_mode st);
             st2 = st\<lparr>l_mode := mode\<rparr>
         in
         if l_scenario st2 = None
            \<and> l_prev_mode st2 \<notin> set [Some BACKGROUND, Some GIVEN, Some WHEN]
            \<and> mode \<in> set (map Some STEP_TYPES)
         then
           Inl (FeatureError ''Step definition outside of a Scenario or a Background''
                  line_no clean_line a_filename)
         else
           (case (if mode = Some FEATURE
                  then feature_branch a_filename line_no clean_line st2
                  else Inr st2) of
              Inl e \<Rightarrow> Inl e
            | Inr st3 \<Rightarrow>
                (case emit mode line_no line_indent (fst (parse_line clean_line))
                        (snd (parse_line clean_line)) stripped_line
                        (st3\<lparr>l_prev_mode := mode\<rparr>) of
                   Inl e \<Rightarrow> Inl e
                 | Inr st4 \<Rightarrow> Inr (st4\<lparr>l_prev_line := Some clean_line\<rparr>)))))"

text \<open>The body of the loop (lines 120-190) for the line numbered \<open>line_no\<close>.\<close>

definition line_indent_of :: "string \<Rightarrow> nat" where
  "line_indent_of line = length line - length (py_lstrip line)"

definition parse_step :: "string \<Rightarrow> pstate \<Rightarrow> nat \<Rightarrow> string \<Rightarrow> error + pstate" where
  "parse_step a_filename st line_no line =
     (let unindented_line = py_lstrip line;
          line_indent = line_indent_of line
      in
      if continues st line_indent unindented_line then
        Inr (add_line_active line (st\<lparr>l_multiline_step := True\<rparr>))
      else
        process_line a_filename (st\<lparr>l_step := None, l_multiline_step := False\<rparr>)
          line_no line_indent line)"

text \<open>
  The loop \<^verbatim>\<open>for line_number, line in enumerate(content.splitlines(), start=1)\<close>;
  a raised exception ends it.
\<close>

fun parse_lines :: "string \<Rightarrow> pstate \<Rightarrow> nat \<Rightarrow> string list \<Rightarrow> error + pstate" where
  "parse_lines a_filename st line_no [] = Inr st"
| "parse_lines a_filename st line_no (line # rest) =
     (case parse_step a_filename st line_no line of
        Inl e \<Rightarrow> Inl e
      | Inr st' \<Rightarrow> parse_lines a_filename st' (Suc line_no) rest)"

text \<open>
  \<^verbatim>\<open>parse_feature\<close>. The two paths that \<^verbatim>\<open>os.path\<close> computes from \<^verbatim>\<open>basedir\<close> and
  \<^verbatim>\<open>filename\<close> and the lines of the file that was read, \<^verbatim>\<open>content.splitlines()\<close>, are
  arguments; \<open>a_filename\<close> is the parameter \<^verbatim>\<open>filename\<close>.
\<close>

definition parse_feature :: "string \<Rightarrow> string \<Rightarrow> string \<Rightarrow> string list \<Rightarrow> error + Feature" where
  "parse_feature abs_filename a_rel_filename a_filename content_lines =
     (case parse_lines a_filename (initial_state abs_filename a_rel_filename) 1 content_lines of
        Inl e \<Rightarrow> Inl e
      | Inr st \<Rightarrow>
          Inr ((l_feature st)
                 \<lparr>description := py_strip (py_join [CHR 0x0A] (l_description st))\<rparr>))"

section \<open>Notions used in the statements\<close>

text \<open>
  A table row as the claim about \<^verbatim>\<open>split_line\<close> reads it. The text of a segment
  is a sequence of items: an escaped pipe, written backslash-pipe and standing for
  \<open>|\<close>, or any other character standing for itself, a backslash included. A pipe of
  its own is not an item: in the text of a segment every \<open>|\<close> is directly preceded
  by a backslash.
\<close>

datatype item = Escaped_pipe | Plain char

fun item_text :: "item \<Rightarrow> string" where
  "item_text Escaped_pipe = [CHR 0x5C, CHR ''|'']"
| "item_text (Plain c) = [c]"

fun item_value :: "item \<Rightarrow> char" where
  "item_value Escaped_pipe = CHR ''|''"
| "item_value (Plain c) = c"

definition seg_text :: "item list \<Rightarrow> string" where
  "seg_text its = concat (map item_text its)"

definition seg_value :: "item list \<Rightarrow> string" where
  "seg_value its = map item_value its"

definition segment :: "item list \<Rightarrow> bool" where
  "segment its = list_all (\<lambda>i. i \<noteq> Plain (CHR ''|'')) its"

text \<open>
  A segment that a separator follows does not end with a backslash of its own, so
  that the separator is a \<open>|\<close> not directly preceded by a backslash.
\<close>

definition closed_segment :: "item list \<Rightarrow> bool" where
  "closed_segment its = (segment its \<and> (its = [] \<or> last its \<noteq> Plain (CHR 0x5C)))"

text \<open>
  A row is one segment or more; its text is the texts of the segments with one \<open>|\<close>
  between two neighbours.
\<close>

definition row_segments :: "item list list \<Rightarrow> bool" where
  "row_segments segs =
     (segs \<noteq> [] \<and> list_all closed_segment (butlast segs) \<and> segment (last segs))"

fun row_text :: "item list list \<Rightarrow> string" where
  "row_text [] = []"
| "row_text [s] = seg_text s"
| "row_text (s # t # ss) = seg_text s @ ''|'' @ row_text (t # ss)"

text \<open>The segments of a line, read from the left: every line is the text of a row.\<close>

fun row_items :: "string \<Rightarrow> item list list" where
  "row_items [] = [[]]"
| "row_items [c] = (if c = CHR ''|'' then [[], []] else [[Plain c]])"
| "row_items (a # b # cs) =
     (if a = CHR ''|'' then [] # row_items (b # cs)
      else if a = CHR 0x5C \<and> b = CHR ''|'' then
        (case row_items cs of
           [] \<Rightarrow> [[Escaped_pipe]]
         | s # ss \<Rightarrow> (Escaped_pipe # s) # ss)
      else (case row_items (b # cs) of
              [] \<Rightarrow> [[Plain a]]
            | s # ss \<Rightarrow> (Plain a # s) # ss))"

text \<open>The messages of the two \<^verbatim>\<open>FeatureError\<close>s that \<^verbatim>\<open>parse_feature\<close> raises.\<close>

definition outside_msg :: string where
  "outside_msg = ''Step definition outside of a Scenario or a Background''"

definition multiple_msg :: string where
  "multiple_msg = ''Multiple features are not allowed in a single feature file''"

text \<open>
  The states the loop is in while it has read nothing but Feature-mode lines, tag lines
  and lines with no recognised prefix: no scenario, no active step.
\<close>

definition header_only :: "pstate \<Rightarrow> bool" where
  "header_only st = (l_scenario st = None \<and> l_step st = None
     \<and> l_mode st \<in> set [None, Some FEATURE, Some TAG]
     \<and> l_prev_mode st \<in> set [None, Some FEATURE, Some TAG])"

text \<open>
  A result of the loop that is not the structural error: another exception, or a state
  with an open ScenarioTemplate.
\<close>

definition not_outside :: "error + pstate \<Rightarrow> bool" where
  "not_outside res = (case res of
       Inl (FeatureError m k t f) \<Rightarrow> m \<noteq> outside_msg
     | Inl e \<Rightarrow> True
     | Inr st \<Rightarrow> l_scenario st \<noteq> None)"

text \<open>
  A well-formed tree: every key of the scenario collection is the name of its scenario,
  every scenario and the background reference a feature, every step of a scenario
  references that scenario and no background, every step of the background references
  that background and no scenario.
\<close>

definition step_in_scenario :: "oid \<Rightarrow> Step \<Rightarrow> bool" where
  "step_in_scenario i s = (Step.scenario s = Some i \<and> Step.background s = None)"

definition step_in_background :: "oid \<Rightarrow> Step \<Rightarrow> bool" where
  "step_in_background i s = (Step.background s = Some i \<and> Step.scenario s = None)"

definition wf_scenario :: "string \<times> ScenarioTemplate \<Rightarrow> bool" where
  "wf_scenario kv =
     (fst kv = ScenarioTemplate.name (snd kv)
      \<and> ScenarioTemplate.feature (snd kv) \<noteq> None
      \<and> list_all (step_in_scenario (ScenarioTemplate.oid (snd kv))) (p_steps (snd kv)))"

definition wf_background :: "Background \<Rightarrow> bool" where
  "wf_background b =
     (Background.feature b \<noteq> None
      \<and> list_all (step_in_background (Background.oid b)) (Background.steps b))"

definition wf_feature :: "Feature \<Rightarrow> bool" where
  "wf_feature f =
     (list_all wf_scenario (scenarios f)
      \<and> (case background f of None \<Rightarrow> True | Some b \<Rightarrow> wf_background b))"

text \<open>
  A Step as \<^verbatim>\<open>Step.__init__\<close> leaves it: neither \<^verbatim>\<open>_name\<close> nor \<^verbatim>\<open>line_number\<close>
  is set. Nothing in the loop assigns them afterwards, so this holds for every step of
  every tree the parser returns.
\<close>

definition unnamed :: "Step \<Rightarrow> bool" where
  "unnamed s = (p_name s = None \<and> Step.line_number s = None)"

definition unnamed_feature :: "Feature \<Rightarrow> bool" where
  "unnamed_feature f =
     (list_all (\<lambda>kv. list_all unnamed (p_steps (snd kv))) (scenarios f)
      \<and> list_all unnamed (background_steps_of f))"

section \<open>Properties of the classifier\<close>

subsection \<open>Tags\<close>

text \<open>
  C4. \<^verbatim>\<open>get_tags\<close> on the line \<^verbatim>\<open>@a @b @c\<close>. The pieces of the split are \<^verbatim>\<open>@a\<close>,
  \<^verbatim>\<open>b\<close> and \<^verbatim>\<open>c\<close>; the filter \<^verbatim>\<open>len(tag) > 1\<close> sees the pieces before their \<open>@\<close> is
  removed and drops the two of length one, so the result is the set of \<open>a\<close> alone and
  not the three tags of the line. The same tag is kept in the first place and dropped in
  a later one: \<^verbatim>\<open>@a @b\<close> gives \<open>a\<close>, \<^verbatim>\<open>@b @a\<close> gives \<open>b\<close>. A line that does not
  start with \<open>@\<close> gives the empty set.
\<close>

theorem get_tags_drops_one_letter_tags:
  "get_tags (Some ''@a @b @c'') = {''a''}
   \<and> get_tags (Some ''@a @b @c'') \<noteq> {''a'', ''b'', ''c''}
   \<and> get_tags (Some ''@a @b'') = {''a''}
   \<and> get_tags (Some ''@b @a'') = {''b''}
   \<and> get_tags (Some ''@ab @cd @e'') = {''ab'', ''cd''}
   \<and> get_tags (Some ''not a tag'') = {}"
  by code_simp

subsection \<open>Table rows\<close>

lemma seg_text_Nil: "seg_text [] = []"
  by (simp add: seg_text_def)

lemma seg_text_Cons: "seg_text (i # its) = item_text i @ seg_text its"
  by (simp add: seg_text_def)

lemma split_pipe_not_Nil: "split_pipe e s \<noteq> []"
  by (induction s arbitrary: e) (auto split: list.splits)

lemma split_pipe_segment:
  "segment its \<Longrightarrow>
   split_pipe e (seg_text its @ rest) =
     (seg_text its @ hd (split_pipe (if its = [] then e else last its = Plain (CHR 0x5C)) rest))
     # tl (split_pipe (if its = [] then e else last its = Plain (CHR 0x5C)) rest)"
proof (induction its arbitrary: e)
  case Nil
  then show ?case using split_pipe_not_Nil[of e rest] by (simp add: seg_text_Nil)
next
  case (Cons i its)
  from Cons.prems have s: "segment its" and i: "i \<noteq> Plain (CHR ''|'')"
    by (simp_all add: segment_def)
  show ?case
  proof (cases i)
    case Escaped_pipe
    have "split_pipe e (CHR 0x5C # CHR ''|'' # seg_text its @ rest)
          = (CHR 0x5C # CHR ''|'' # hd (split_pipe False (seg_text its @ rest)))
            # tl (split_pipe False (seg_text its @ rest))"
      using split_pipe_not_Nil[of False "seg_text its @ rest"]
      by (auto split: list.splits)
    with Cons.IH[OF s, of False] Escaped_pipe show ?thesis
      by (auto simp: seg_text_Cons)
  next
    case (Plain c)
    with i have c: "c \<noteq> CHR ''|''" by simp
    have "split_pipe e (c # seg_text its @ rest)
          = (c # hd (split_pipe (c = CHR 0x5C) (seg_text its @ rest)))
            # tl (split_pipe (c = CHR 0x5C) (seg_text its @ rest))"
      using c split_pipe_not_Nil[of "c = CHR 0x5C" "seg_text its @ rest"]
      by (auto split: list.splits)
    with Cons.IH[OF s, of "c = CHR 0x5C"] Plain show ?thesis
      by (auto simp: seg_text_Cons)
  qed
qed

lemma split_pipe_row:
  "segs \<noteq> [] \<Longrightarrow> list_all closed_segment (butlast segs) \<Longrightarrow> segment (last segs) \<Longrightarrow>
   split_pipe False (row_text segs) = map seg_text segs"
proof (induction segs rule: row_text.induct)
  case 1
  then show ?case by simp
next
  case (2 s)
  then show ?case
    by (simp add: split_pipe_segment[of s False "[]", simplified])
next
  case (3 s t ss)
  from "3.prems" have c: "closed_segment s" and r: "list_all closed_segment (butlast (t # ss))"
    "segment (last (t # ss))"
    by auto
  from c have f: "(if s = [] then False else last s = Plain (CHR 0x5C)) = False"
    by (auto simp: closed_segment_def)
  from c have "segment s" by (simp add: closed_segment_def)
  from split_pipe_segment[OF this, of False "CHR ''|'' # row_text (t # ss)"]
  have "split_pipe False (seg_text s @ CHR ''|'' # row_text (t # ss))
        = seg_text s # split_pipe False (row_text (t # ss))"
    unfolding f by simp
  with "3.IH" r show ?case by simp
qed

lemma segment_text_first: "segment its \<Longrightarrow> seg_text its = b # cs \<Longrightarrow> b \<noteq> CHR ''|''"
  by (cases its; cases "hd its") (auto simp: segment_def seg_text_Cons seg_text_Nil)

lemma unescape_segment: "segment its \<Longrightarrow> unescape_pipe (seg_text its) = seg_value its"
proof (induction its)
  case Nil
  then show ?case by (simp add: seg_text_Nil seg_value_def)
next
  case (Cons i its)
  from Cons.prems have s: "segment its" and i: "i \<noteq> Plain (CHR ''|'')"
    by (simp_all add: segment_def)
  from Cons.IH[OF s] have IH: "unescape_pipe (seg_text its) = seg_value its" .
  show ?case
  proof (cases i)
    case Escaped_pipe
    with IH show ?thesis by (simp add: seg_text_Cons seg_value_def)
  next
    case (Plain c)
    show ?thesis
    proof (cases "seg_text its")
      case Nil
      with IH Plain show ?thesis by (simp add: seg_text_Cons seg_value_def)
    next
      case (Cons b cs)
      from segment_text_first[OF s Cons] have "b \<noteq> CHR ''|''" .
      with IH Plain Cons show ?thesis by (simp add: seg_text_Cons seg_value_def)
    qed
  qed
qed

lemma split_line_of_row:
  assumes "segs \<noteq> []" "list_all closed_segment (butlast segs)" "segment (last segs)"
  shows "split_line (row_text segs) = map (\<lambda>s. py_strip (seg_value s)) (butlast (tl segs))"
proof -
  have m: "\<forall>s \<in> set (butlast (tl segs)). segment s"
  proof
    fix s assume "s \<in> set (butlast (tl segs))"
    then have "s \<in> set (butlast segs)"
      by (metis butlast_tl in_set_butlastD list.sel(2) list.set_sel(2) tl_Nil)
    with assms(2) show "segment s" by (auto simp: list_all_iff closed_segment_def)
  qed
  have "split_line (row_text segs)
        = map (\<lambda>cell. py_strip (unescape_pipe cell)) (map seg_text (butlast (tl segs)))"
    by (simp add: split_line_def slice_1_m1_def split_pipe_row[OF assms] map_butlast map_tl)
  also have "\<dots> = map (\<lambda>s. py_strip (seg_value s)) (butlast (tl segs))"
    using m by (simp add: unescape_segment)
  finally show ?thesis .
qed


lemma row_items_not_Nil: "row_items s \<noteq> []"
  by (induction s rule: row_items.induct) (auto split: list.splits)

lemma row_text_prepend: "row_text ((i # s) # ss) = item_text i @ row_text (s # ss)"
  by (cases ss) (simp_all add: seg_text_Cons)

lemma row_text_empty_first: "ss \<noteq> [] \<Longrightarrow> row_text ([] # ss) = CHR ''|'' # row_text ss"
  by (cases ss) (simp_all add: seg_text_Nil)

lemma row_text_row_items: "row_text (row_items s) = s"
proof (induction s rule: row_items.induct)
  case 1
  then show ?case by (simp add: seg_text_Nil)
next
  case (2 c)
  then show ?case by (simp add: seg_text_Nil seg_text_Cons)
next
  case (3 a b cs)
  show ?case
  proof (cases "a = CHR ''|''")
    case True
    with 3 show ?thesis by (simp add: row_text_empty_first row_items_not_Nil)
  next
    case False
    note a = this
    show ?thesis
    proof (cases "a = CHR 0x5C \<and> b = CHR ''|''")
      case True
      obtain r rs where r: "row_items cs = r # rs"
        using row_items_not_Nil[of cs] by (cases "row_items cs") auto
      from 3(2)[OF a True] r have "row_text (r # rs) = cs" by simp
      with a True r show ?thesis by (simp add: row_text_prepend)
    next
      case False
      obtain r rs where r: "row_items (b # cs) = r # rs"
        using row_items_not_Nil[of "b # cs"] by (cases "row_items (b # cs)") auto
      from 3(3)[OF a False] r have "row_text (r # rs) = b # cs" by simp
      with a False r show ?thesis by (auto simp: row_text_prepend)
    qed
  qed
qed

lemma row_items_hd: "hd (row_items s) = [] \<longleftrightarrow> (s = [] \<or> hd s = CHR ''|'')"
  by (induction s rule: row_items.induct) (auto split: list.splits)

lemma row_segments_empty_first: "row_segments ss \<Longrightarrow> row_segments ([] # ss)"
  by (cases ss) (auto simp: row_segments_def closed_segment_def segment_def)

lemma row_segments_prepend:
  assumes "row_segments (s # ss)" "i \<noteq> Plain (CHR ''|'')" "i = Plain (CHR 0x5C) \<longrightarrow> s \<noteq> []"
  shows "row_segments ((i # s) # ss)"
  using assms by (cases ss) (auto simp: row_segments_def closed_segment_def segment_def)

lemma row_segments_row_items: "row_segments (row_items s)"
proof (induction s rule: row_items.induct)
  case 1
  then show ?case by (simp add: row_segments_def segment_def)
next
  case (2 c)
  then show ?case by (simp add: row_segments_def segment_def closed_segment_def)
next
  case (3 a b cs)
  show ?case
  proof (cases "a = CHR ''|''")
    case True
    with 3 show ?thesis by (simp add: row_segments_empty_first)
  next
    case False
    note a = this
    show ?thesis
    proof (cases "a = CHR 0x5C \<and> b = CHR ''|''")
      case True
      obtain r rs where r: "row_items cs = r # rs"
        using row_items_not_Nil[of cs] by (cases "row_items cs") auto
      from 3(2)[OF a True] r have "row_segments (r # rs)" by simp
      then have "row_segments ((Escaped_pipe # r) # rs)"
        by (rule row_segments_prepend) simp_all
      with a True r show ?thesis by simp
    next
      case False
      obtain r rs where r: "row_items (b # cs) = r # rs"
        using row_items_not_Nil[of "b # cs"] by (cases "row_items (b # cs)") auto
      from 3(3)[OF a False] r have "row_segments (r # rs)" by simp
      moreover have "Plain a = Plain (CHR 0x5C) \<longrightarrow> r \<noteq> []"
      proof
        assume "Plain a = Plain (CHR 0x5C)"
        with False have "b \<noteq> CHR ''|''" by simp
        with row_items_hd[of "b # cs"] r show "r \<noteq> []" by simp
      qed
      ultimately have "row_segments ((Plain a # r) # rs)"
        using a by (intro row_segments_prepend) simp_all
      with a False r show ?thesis by auto
    qed
  qed
qed

text \<open>
  C5, as the code has it. \<^verbatim>\<open>split_line\<close> cuts the row at every \<open>|\<close> that is not
  directly preceded by a backslash, drops the first and the last segment whatever they
  hold (the slice \<^verbatim>\<open>[1:-1]\<close> does not look at them), and returns the other segments
  in their order, each with its backslash-pipe pairs replaced by \<open>|\<close>, every other
  character kept, and trimmed. This says what \<^verbatim>\<open>split_line\<close> returns on every line,
  since every line is the text of a row.
\<close>

theorem split_line_segments:
  "(row_segments segs \<longrightarrow>
      split_line (row_text segs) = map (\<lambda>s. py_strip (seg_value s)) (butlast (tl segs)))
   \<and> (\<exists>segs'. row_segments segs' \<and> row_text segs' = line)"
proof
  show "row_segments segs \<longrightarrow>
      split_line (row_text segs) = map (\<lambda>s. py_strip (seg_value s)) (butlast (tl segs))"
    by (auto simp: row_segments_def intro: split_line_of_row)
  show "\<exists>segs'. row_segments segs' \<and> row_text segs' = line"
    using row_segments_row_items[of line] row_text_row_items[of line] by blast
qed

text \<open>
  The row \<^verbatim>\<open>x| C:\dir |a\\|b|c\|d|y\<close>: the backslash of the first cell is kept, the
  pipe behind the two backslashes of the second cell does not separate and the pair it
  makes with the second backslash becomes \<open>|\<close>, and the texts \<open>x\<close> and \<open>y\<close> outside
  the boundary pipes are dropped.
\<close>

theorem split_line_segments_witness:
  "split_line (''x| C:'' @ [CHR 0x5C] @ ''dir |a'' @ [CHR 0x5C, CHR 0x5C] @ ''|b|c'' @ [CHR 0x5C] @ ''|d|y'')
   = [''C:'' @ [CHR 0x5C] @ ''dir'', ''a'' @ [CHR 0x5C] @ ''|b'', ''c|d'']"
proof -
  define segs where "segs =
    [[Plain CHR ''x''],
     [Plain CHR '' '', Plain CHR ''C'', Plain CHR '':'', Plain (CHR 0x5C), Plain CHR ''d'',
      Plain CHR ''i'', Plain CHR ''r'', Plain CHR '' ''],
     [Plain CHR ''a'', Plain (CHR 0x5C), Escaped_pipe, Plain CHR ''b''],
     [Plain CHR ''c'', Escaped_pipe, Plain CHR ''d''],
     [Plain CHR ''y'']]"
  have r: "row_segments segs"
    unfolding segs_def by code_simp
  have t: "row_text segs
    = ''x| C:'' @ [CHR 0x5C] @ ''dir |a'' @ [CHR 0x5C, CHR 0x5C] @ ''|b|c'' @ [CHR 0x5C] @ ''|d|y''"
    unfolding segs_def by code_simp
  have v: "map (\<lambda>s. py_strip (seg_value s)) (butlast (tl segs))
    = [''C:'' @ [CHR 0x5C] @ ''dir'', ''a'' @ [CHR 0x5C] @ ''|b'', ''c|d'']"
    unfolding segs_def by code_simp
  from split_line_segments[of segs] r
  have "split_line (row_text segs) = map (\<lambda>s. py_strip (seg_value s)) (butlast (tl segs))"
    by blast
  then show ?thesis
    unfolding t v .
qed

text \<open>
  The row \<^verbatim>\<open>a|b\|c|d\<close> of the claim has no boundary pipes: its first and last segments
  are the cells \<open>a\<close> and \<open>d\<close>, and they are dropped.
\<close>

theorem split_line_no_boundary_pipes:
  "split_line (''a|b'' @ [CHR 0x5C] @ ''|c|d'') = [''b|c'']
   \<and> split_line (''a|b'' @ [CHR 0x5C] @ ''|c|d'') \<noteq> [''a'', ''b|c'', ''d'']"
  by code_simp

section \<open>Properties of the parse state machine\<close>

lemma get_step_type_Nil: "get_step_type [] = None"
  by (simp add: get_step_type_def STEP_PREFIXES_def startswith_def)

lemma parse_lines_append:
  "parse_lines fn st n (xs @ ys) =
     (case parse_lines fn st n xs of
        Inl e \<Rightarrow> Inl e
      | Inr st' \<Rightarrow> parse_lines fn st' (n + length xs) ys)"
  by (induction xs arbitrary: st n) (auto split: sum.splits)

lemma parse_step_not_continues:
  "\<not> continues st (line_indent_of line) (py_lstrip line) \<Longrightarrow>
   parse_step fn st n line =
     process_line fn (st\<lparr>l_step := None, l_multiline_step := False\<rparr>) n (line_indent_of line) line"
  by (simp add: parse_step_def Let_def)

lemma process_line_outside:
  assumes "l_scenario st = None"
    and "l_prev_mode st \<notin> set [Some BACKGROUND, Some GIVEN, Some WHEN]"
    and "get_step_type (strip_comments line) \<in> set (map Some STEP_TYPES)"
  shows "process_line fn st n ind line = Inl (FeatureError outside_msg n (strip_comments line) fn)"
proof -
  from assms(3) have "strip_comments line \<noteq> []" using get_step_type_Nil by auto
  with assms show ?thesis
    by (auto simp: process_line_def Let_def outside_msg_def)
qed

lemma process_line_examples:
  assumes "l_scenario st = None" and "get_step_type (strip_comments line) = Some EXAMPLES"
  shows "process_line fn st n ind line = Inl (AttributeError ''examples'')"
proof -
  from assms(2) have "strip_comments line \<noteq> []" using get_step_type_Nil by auto
  with assms show ?thesis
    by (simp add: process_line_def Let_def STEP_TYPES_def emit_def)
qed

subsection \<open>An Examples header with no open scenario\<close>

text \<open>
  C10. Let the lines \<open>pre\<close> of a file parse without error to a state \<open>st\<close> in which no
  ScenarioTemplate is open, and let the next line be classified as an \<^verbatim>\<open>Examples:\<close>
  header (it does not continue a step). Then parsing the file does not raise the
  structural \<^verbatim>\<open>FeatureError\<close>: the guard of line 138 asks for a Given/When/Then mode.
  It fails with the \<^verbatim>\<open>AttributeError\<close> of \<^verbatim>\<open>scenario.examples\<close> on
  \<^verbatim>\<open>scenario = None\<close> (line 177), whatever follows.
\<close>

theorem examples_header_without_scenario:
  assumes "parse_lines fn (initial_state a r) 1 pre = Inr st"
    and "l_scenario st = None"
    and "\<not> continues st (line_indent_of line) (py_lstrip line)"
    and "get_step_type (strip_comments line) = Some EXAMPLES"
  shows "parse_feature a r fn (pre @ line # post) = Inl (AttributeError ''examples'')"
proof -
  have "parse_step fn st (1 + length pre) line = Inl (AttributeError ''examples'')"
    using assms(2,4) by (simp add: parse_step_not_continues[OF assms(3)] process_line_examples)
  then show ?thesis
    using assms(1) by (simp add: parse_feature_def parse_lines_append)
qed

text \<open>
  A Feature with a Background and one Background step, then an \<^verbatim>\<open>Examples:\<close> header
  at the step's own indentation.
\<close>

theorem examples_header_without_scenario_witness:
  "parse_feature ''/abs/f.feature'' ''d/f.feature'' ''f.feature''
     [''Feature: f'', ''Background:'', ''  Given a'', ''  Examples:'', ''  | x |'']
   = Inl (AttributeError ''examples'')"
proof -
  have "case parse_lines ''f.feature'' (initial_state ''/abs/f.feature'' ''d/f.feature'') 1
               [''Feature: f'', ''Background:'', ''  Given a''] of
          Inl e \<Rightarrow> False
        | Inr st \<Rightarrow> l_scenario st = None
            \<and> \<not> continues st (line_indent_of ''  Examples:'') (py_lstrip ''  Examples:'')"
    by code_simp
  then obtain st where
    "parse_lines ''f.feature'' (initial_state ''/abs/f.feature'' ''d/f.feature'') 1
               [''Feature: f'', ''Background:'', ''  Given a''] = Inr st"
    "l_scenario st = None"
    "\<not> continues st (line_indent_of ''  Examples:'') (py_lstrip ''  Examples:'')"
    by (auto split: sum.splits)
  moreover have "get_step_type (strip_comments ''  Examples:'') = Some EXAMPLES"
    by code_simp
  ultimately show ?thesis
    using examples_header_without_scenario[of "''f.feature''" "''/abs/f.feature''" "''d/f.feature''"
        "[''Feature: f'', ''Background:'', ''  Given a'']" st "''  Examples:''" "[''  | x |'']"]
    by simp
qed

subsection \<open>The guard against a step outside a Scenario or a Background\<close>

lemma continues_no_step: "l_step st = None \<Longrightarrow> \<not> continues st i u"
  by (simp add: continues_def active_step_def)

lemma emit_header:
  "mode \<in> set [None, Some FEATURE, Some TAG] \<Longrightarrow> emit mode n i k p s st = Inr st"
  by (auto simp: emit_def)

lemma feature_branch_header:
  assumes "l_prev_mode st \<in> set [None, Some FEATURE, Some TAG]"
  shows "\<exists>st'. feature_branch fn n c st = Inr st' \<and> l_scenario st' = l_scenario st
           \<and> l_step st' = l_step st"
  using assms by (auto simp: feature_branch_def)

lemma process_line_header_only:
  assumes h: "header_only st"
    and t: "get_step_type (strip_comments line) \<in> set [None, Some FEATURE, Some TAG]"
  shows "\<exists>st'. process_line fn st n ind line = Inr st' \<and> header_only st'"
proof (cases "strip_comments line = [] \<and> (l_prev_mode st = None \<or> l_prev_mode st \<noteq> Some FEATURE)")
  case True
  with h show ?thesis by (simp add: process_line_def Let_def)
next
  case False
  define mode where "mode = (case get_step_type (strip_comments line) of Some t \<Rightarrow> Some t | None \<Rightarrow> l_mode st)"
  from h t have m: "mode \<in> set [None, Some FEATURE, Some TAG]"
    by (auto simp: mode_def header_only_def split: option.splits)
  then have g: "mode \<notin> set (map Some STEP_TYPES)"
    by (auto simp: STEP_TYPES_def)
  define st2 where "st2 = st\<lparr>l_mode := mode\<rparr>"
  from h have p2: "l_prev_mode st2 \<in> set [None, Some FEATURE, Some TAG]"
    by (simp add: st2_def header_only_def)
  obtain st3 where st3: "(if mode = Some FEATURE
           then feature_branch fn n (strip_comments line) st2 else Inr st2) = Inr st3"
     "l_scenario st3 = l_scenario st2" "l_step st3 = l_step st2"
    using feature_branch_header[OF p2, of fn n "strip_comments line"] by (cases "mode = Some FEATURE") auto
  have e: "emit mode n ind (fst (parse_line (strip_comments line)))
             (snd (parse_line (strip_comments line))) (py_strip line) (st3\<lparr>l_prev_mode := mode\<rparr>)
           = Inr (st3\<lparr>l_prev_mode := mode\<rparr>)"
    using m by (rule emit_header)
  have r: "process_line fn st n ind line
        = Inr (st3\<lparr>l_prev_mode := mode, l_prev_line := Some (strip_comments line)\<rparr>)"
    unfolding process_line_def Let_def
    apply (subst if_not_P)
     apply (rule False)
    unfolding mode_def[symmetric] st2_def[symmetric]
    using g st3(1) e by simp
  have "l_mode st3 = mode"
    using st3(1) by (auto simp: st2_def feature_branch_def split: if_splits)
  with st3(2,3) h m
  have "header_only (st3\<lparr>l_prev_mode := mode, l_prev_line := Some (strip_comments line)\<rparr>)"
    by (simp add: header_only_def st2_def)
  with r show ?thesis by blast
qed

lemma parse_step_header_only:
  assumes "header_only st" and "get_step_type (strip_comments line) \<in> set [None, Some FEATURE, Some TAG]"
  shows "\<exists>st'. parse_step fn st n line = Inr st' \<and> header_only st'"
proof -
  from assms(1) have c: "\<not> continues st (line_indent_of line) (py_lstrip line)"
    by (simp add: continues_no_step header_only_def)
  from assms(1) have "header_only (st\<lparr>l_step := None, l_multiline_step := False\<rparr>)"
    by (simp add: header_only_def)
  from process_line_header_only[OF this assms(2)] c show ?thesis
    by (simp add: parse_step_def Let_def)
qed

lemma parse_lines_header_only:
  assumes "header_only st"
    and "\<forall>x \<in> set pre. get_step_type (strip_comments x) \<in> set [None, Some FEATURE, Some TAG]"
  shows "\<exists>st'. parse_lines fn st n pre = Inr st' \<and> header_only st'"
  using assms
proof (induction pre arbitrary: st n)
  case Nil
  then show ?case by simp
next
  case (Cons x pre)
  from Cons.prems obtain st1 where s1: "parse_step fn st n x = Inr st1" "header_only st1"
    using parse_step_header_only[of st x fn n] by auto
  from Cons.IH[OF s1(2), of "Suc n"] Cons.prems(2) s1(1) show ?case by simp
qed

lemma header_only_initial: "header_only (initial_state a r)"
  by (simp add: header_only_def initial_state_def)

lemma first_step_outside:
  assumes "\<forall>x \<in> set pre. get_step_type (strip_comments x) \<in> set [None, Some FEATURE, Some TAG]"
    and "get_step_type (strip_comments line) \<in> set (map Some STEP_TYPES)"
  shows "parse_feature a r fn (pre @ line # post)
         = Inl (FeatureError outside_msg (Suc (length pre)) (strip_comments line) fn)"
proof -
  obtain st where st: "parse_lines fn (initial_state a r) 1 pre = Inr st" "header_only st"
    using parse_lines_header_only[OF header_only_initial assms(1)] by blast
  from st(2) have c: "\<not> continues st (line_indent_of line) (py_lstrip line)"
    by (simp add: continues_no_step header_only_def)
  have "process_line fn (st\<lparr>l_step := None, l_multiline_step := False\<rparr>) (Suc (length pre))
          (line_indent_of line) line
        = Inl (FeatureError outside_msg (Suc (length pre)) (strip_comments line) fn)"
    using st(2) assms(2) by (intro process_line_outside) (auto simp: header_only_def)
  then show ?thesis
    using st(1) by (simp add: parse_feature_def parse_lines_append parse_step_not_continues[OF c])
qed

text \<open>Once a ScenarioTemplate is open it stays open, and the guard never fires again.\<close>

lemma update_scenario_l_scenario: "l_scenario (update_scenario g st) = l_scenario st"
  by (simp add: update_scenario_def split: option.splits)

lemma update_background_l_scenario: "l_scenario (update_background g st) = l_scenario st"
  by (simp add: update_background_def)

lemma add_line_active_l_scenario: "l_scenario (add_line_active line st) = l_scenario st"
  by (simp add: add_line_active_def update_scenario_l_scenario update_background_l_scenario
      split: option.splits step_ref.splits)

lemma emit_scenario_open:
  assumes "l_scenario st \<noteq> None"
  shows "\<exists>st'. emit mode n i k p s st = Inr st' \<and> l_scenario st' \<noteq> None"
  using assms
  by (auto simp: emit_def Let_def update_scenario_l_scenario update_background_l_scenario
      split: option.splits)

lemma feature_branch_result:
  "(\<exists>st'. feature_branch fn n c st = Inr st' \<and> l_scenario st' = l_scenario st)
   \<or> feature_branch fn n c st = Inl (FeatureError multiple_msg n c fn)"
  by (auto simp: feature_branch_def multiple_msg_def)

lemma outside_not_multiple: "outside_msg \<noteq> multiple_msg"
  by (simp add: outside_msg_def multiple_msg_def)

lemma process_line_scenario_open:
  assumes o: "l_scenario st \<noteq> None"
  shows "not_outside (process_line fn st n ind line)"
proof (cases "strip_comments line = [] \<and> (l_prev_mode st = None \<or> l_prev_mode st \<noteq> Some FEATURE)")
  case True
  with o show ?thesis by (simp add: process_line_def Let_def not_outside_def)
next
  case False
  define mode where "mode = (case get_step_type (strip_comments line) of Some t \<Rightarrow> Some t | None \<Rightarrow> l_mode st)"
  define st2 where "st2 = st\<lparr>l_mode := mode\<rparr>"
  from o have o2: "l_scenario st2 \<noteq> None" by (simp add: st2_def)
  have u: "process_line fn st n ind line =
     (case (if mode = Some FEATURE then feature_branch fn n (strip_comments line) st2 else Inr st2) of
              Inl e \<Rightarrow> Inl e
            | Inr st3 \<Rightarrow>
                (case emit mode n ind (fst (parse_line (strip_comments line)))
                        (snd (parse_line (strip_comments line))) (py_strip line)
                        (st3\<lparr>l_prev_mode := mode\<rparr>) of
                   Inl e \<Rightarrow> Inl e
                 | Inr st4 \<Rightarrow> Inr (st4\<lparr>l_prev_line := Some (strip_comments line)\<rparr>)))"
    unfolding process_line_def Let_def
    apply (subst if_not_P)
     apply (rule False)
    unfolding mode_def[symmetric] st2_def[symmetric]
    apply (subst if_not_P)
    using o2 apply blast
    apply (rule refl)
    done
  consider st3 where "(if mode = Some FEATURE then feature_branch fn n (strip_comments line) st2 else Inr st2) = Inr st3"
       "l_scenario st3 = l_scenario st2"
    | "(if mode = Some FEATURE then feature_branch fn n (strip_comments line) st2 else Inr st2)
        = Inl (FeatureError multiple_msg n (strip_comments line) fn)"
    using feature_branch_result[of fn n "strip_comments line" st2] by (cases "mode = Some FEATURE") auto
  then show ?thesis
  proof cases
    case 1
    with o2 have "l_scenario (st3\<lparr>l_prev_mode := mode\<rparr>) \<noteq> None" by simp
    from emit_scenario_open[OF this] obtain st4 where
      "emit mode n ind (fst (parse_line (strip_comments line)))
                        (snd (parse_line (strip_comments line))) (py_strip line)
                        (st3\<lparr>l_prev_mode := mode\<rparr>) = Inr st4" "l_scenario st4 \<noteq> None"
      by blast
    with 1(1) show ?thesis by (simp add: u not_outside_def)
  next
    case 2
    then show ?thesis using outside_not_multiple by (simp add: u not_outside_def)
  qed
qed

lemma parse_step_scenario_open:
  assumes "l_scenario st \<noteq> None"
  shows "not_outside (parse_step fn st n line)"
proof (cases "continues st (line_indent_of line) (py_lstrip line)")
  case True
  with assms show ?thesis
    by (simp add: parse_step_def Let_def not_outside_def add_line_active_l_scenario)
next
  case False
  from assms have "l_scenario (st\<lparr>l_step := None, l_multiline_step := False\<rparr>) \<noteq> None" by simp
  from process_line_scenario_open[OF this] show ?thesis
    by (simp add: parse_step_not_continues[OF False])
qed

lemma parse_lines_scenario_open:
  "l_scenario st \<noteq> None \<Longrightarrow> not_outside (parse_lines fn st n ls)"
proof (induction ls arbitrary: st n)
  case Nil
  then show ?case by (simp add: not_outside_def)
next
  case (Cons x ls)
  show ?case
  proof (cases "parse_step fn st n x")
    case (Inl e)
    with parse_step_scenario_open[OF Cons.prems, of fn n x] show ?thesis
      by simp
  next
    case (Inr st')
    with parse_step_scenario_open[OF Cons.prems, of fn n x] have "l_scenario st' \<noteq> None"
      by (simp add: not_outside_def)
    from Cons.IH[OF this] Inr show ?thesis by simp
  qed
qed

lemma scenario_open_no_outside:
  assumes "parse_lines fn (initial_state a r) 1 pre = Inr st" and "l_scenario st \<noteq> None"
  shows "parse_feature a r fn (pre @ post) \<noteq> Inl (FeatureError outside_msg k t f)"
proof -
  from parse_lines_scenario_open[OF assms(2), of fn "1 + length pre" post] assms(1) show ?thesis
    by (auto simp: parse_feature_def parse_lines_append not_outside_def split: sum.splits)
qed

text \<open>A line behind the previous mode Background, Given or When passes the guard.\<close>

lemma emit_error: "emit mode n i k p s st = Inl e \<Longrightarrow> \<exists>a. e = AttributeError a"
  by (auto simp: emit_def Let_def split: if_splits option.splits)

lemma process_line_allowed_prev_mode:
  assumes o: "l_prev_mode st \<in> set [Some BACKGROUND, Some GIVEN, Some WHEN]"
  shows "process_line fn st n ind line \<noteq> Inl (FeatureError outside_msg k t f)"
proof (cases "strip_comments line = [] \<and> (l_prev_mode st = None \<or> l_prev_mode st \<noteq> Some FEATURE)")
  case True
  then show ?thesis by (simp add: process_line_def Let_def)
next
  case False
  define mode where "mode = (case get_step_type (strip_comments line) of Some t \<Rightarrow> Some t | None \<Rightarrow> l_mode st)"
  define st2 where "st2 = st\<lparr>l_mode := mode\<rparr>"
  from o have o2: "\<not> (l_scenario st2 = None
            \<and> l_prev_mode st2 \<notin> set [Some BACKGROUND, Some GIVEN, Some WHEN]
            \<and> mode \<in> set (map Some STEP_TYPES))"
    by (simp add: st2_def)
  have u: "process_line fn st n ind line =
     (case (if mode = Some FEATURE then feature_branch fn n (strip_comments line) st2 else Inr st2) of
              Inl e \<Rightarrow> Inl e
            | Inr st3 \<Rightarrow>
                (case emit mode n ind (fst (parse_line (strip_comments line)))
                        (snd (parse_line (strip_comments line))) (py_strip line)
                        (st3\<lparr>l_prev_mode := mode\<rparr>) of
                   Inl e \<Rightarrow> Inl e
                 | Inr st4 \<Rightarrow> Inr (st4\<lparr>l_prev_line := Some (strip_comments line)\<rparr>)))"
    unfolding process_line_def Let_def
    apply (subst if_not_P)
     apply (rule False)
    unfolding mode_def[symmetric] st2_def[symmetric]
    apply (subst if_not_P)
     apply (rule o2)
    apply (rule refl)
    done
  consider st3 where "(if mode = Some FEATURE then feature_branch fn n (strip_comments line) st2 else Inr st2) = Inr st3"
    | "(if mode = Some FEATURE then feature_branch fn n (strip_comments line) st2 else Inr st2)
        = Inl (FeatureError multiple_msg n (strip_comments line) fn)"
    using feature_branch_result[of fn n "strip_comments line" st2] by (cases "mode = Some FEATURE") auto
  then show ?thesis
  proof cases
    case 1
    show ?thesis
    proof (cases "emit mode n ind (fst (parse_line (strip_comments line)))
                        (snd (parse_line (strip_comments line))) (py_strip line)
                        (st3\<lparr>l_prev_mode := mode\<rparr>)")
      case (Inl e)
      with emit_error[OF Inl] 1 show ?thesis by (auto simp: u)
    next
      case (Inr st4)
      with 1 show ?thesis by (simp add: u)
    qed
  next
    case 2
    then show ?thesis using outside_not_multiple by (simp add: u)
  qed
qed

lemma allowed_prev_mode_no_outside:
  assumes "parse_lines fn (initial_state a r) 1 pre = Inr st"
    and "l_prev_mode st \<in> set [Some BACKGROUND, Some GIVEN, Some WHEN]"
  shows "parse_lines fn (initial_state a r) 1 (pre @ [line]) \<noteq> Inl (FeatureError outside_msg k t f)"
proof (cases "continues st (line_indent_of line) (py_lstrip line)")
  case True
  with assms(1) show ?thesis
    by (simp add: parse_lines_append parse_step_def Let_def)
next
  case False
  from assms(2) have "l_prev_mode (st\<lparr>l_step := None, l_multiline_step := False\<rparr>)
      \<in> set [Some BACKGROUND, Some GIVEN, Some WHEN]"
    by simp
  from process_line_allowed_prev_mode[OF this] assms(1) show ?thesis
    by (auto simp: parse_lines_append parse_step_not_continues[OF False] split: sum.splits)
qed

text \<open>
  C3, as the code has it. (1) Let no line before \<open>line\<close> start, after its comment is
  stripped, with the prefix of a Scenario, Scenario Outline, Background, Examples, Given,
  When or Then line, and let \<open>line\<close> start with \<^verbatim>\<open>Given \<close>, \<^verbatim>\<open>When \<close> or \<^verbatim>\<open>Then \<close>.
  Then parsing returns no document: it fails with the \<^verbatim>\<open>FeatureError\<close> of line 139,
  which carries the message, the 1-based number of \<open>line\<close>, its comment-stripped and
  trimmed text and the file name. (2) Once the lines read so far have opened a
  ScenarioTemplate, no later line raises this error. (3) Whether or not a scenario is
  open, the line read in a state whose previous mode is Background, Given or When does
  not raise it.
\<close>

theorem structural_error_guard:
  "((\<forall>x \<in> set pre. get_step_type (strip_comments x) \<in> set [None, Some FEATURE, Some TAG]) \<longrightarrow>
      get_step_type (strip_comments line) \<in> set (map Some STEP_TYPES) \<longrightarrow>
      parse_feature a r fn (pre @ line # post)
        = Inl (FeatureError outside_msg (Suc (length pre)) (strip_comments line) fn))
   \<and> (parse_lines fn (initial_state a r) 1 pre' = Inr st \<longrightarrow> l_scenario st \<noteq> None \<longrightarrow>
        parse_feature a r fn (pre' @ post') \<noteq> Inl (FeatureError outside_msg k t f))
   \<and> (parse_lines fn (initial_state a r) 1 pre'' = Inr st' \<longrightarrow>
        l_prev_mode st' \<in> set [Some BACKGROUND, Some GIVEN, Some WHEN] \<longrightarrow>
        parse_lines fn (initial_state a r) 1 (pre'' @ [line'])
          \<noteq> Inl (FeatureError outside_msg k' t' f'))"
  using first_step_outside[of pre line a r fn post]
    scenario_open_no_outside[of fn a r pre' st post' k t f]
    allowed_prev_mode_no_outside[of fn a r pre'' st' line' k' t' f']
  by blast

text \<open>
  A Given line in the description of a Feature is refused at line 4; the steps behind a
  Scenario header are not refused by the guard, here the Given after a Then; in a
  Background, the Then step behind a When step is not refused.
\<close>

theorem structural_error_guard_witness:
  "parse_feature ''/abs/f.feature'' ''d/f.feature'' ''f.feature''
     [''@tag'', ''Feature: f'', ''  text'', ''  Given x # c'', ''Scenario: s'']
     = Inl (FeatureError outside_msg 4 ''Given x'' ''f.feature'')
   \<and> parse_feature ''/abs/f.feature'' ''d/f.feature'' ''f.feature''
       [''Background:'', ''Given a'', ''Scenario: s'', ''Then b'', ''Given c'']
     \<noteq> Inl (FeatureError outside_msg 5 ''Given c'' ''f.feature'')
   \<and> parse_lines ''f.feature'' (initial_state ''/abs/f.feature'' ''d/f.feature'') 1
       [''Background:'', ''Given a'', ''When b'', ''Then c'']
     \<noteq> Inl (FeatureError outside_msg 4 ''Then c'' ''f.feature'')"
proof -
  have p: "\<forall>x \<in> set [''@tag'', ''Feature: f'', ''  text''].
            get_step_type (strip_comments x) \<in> set [None, Some FEATURE, Some TAG]"
    by code_simp
  have l: "get_step_type (strip_comments ''  Given x # c'') \<in> set (map Some STEP_TYPES)"
    by code_simp
  have c: "strip_comments ''  Given x # c'' = ''Given x''"
    by code_simp
  have "case parse_lines ''f.feature'' (initial_state ''/abs/f.feature'' ''d/f.feature'') 1
               [''Background:'', ''Given a'', ''Scenario: s''] of
          Inl e \<Rightarrow> False | Inr st \<Rightarrow> l_scenario st \<noteq> None"
    by code_simp
  then obtain st where s:
    "parse_lines ''f.feature'' (initial_state ''/abs/f.feature'' ''d/f.feature'') 1
               [''Background:'', ''Given a'', ''Scenario: s''] = Inr st" "l_scenario st \<noteq> None"
    by (auto split: sum.splits)
  have "case parse_lines ''f.feature'' (initial_state ''/abs/f.feature'' ''d/f.feature'') 1
               [''Background:'', ''Given a'', ''When b''] of
          Inl e \<Rightarrow> False
        | Inr st \<Rightarrow> l_prev_mode st \<in> set [Some BACKGROUND, Some GIVEN, Some WHEN]"
    by code_simp
  then obtain st' where s':
    "parse_lines ''f.feature'' (initial_state ''/abs/f.feature'' ''d/f.feature'') 1
               [''Background:'', ''Given a'', ''When b''] = Inr st'"
    "l_prev_mode st' \<in> set [Some BACKGROUND, Some GIVEN, Some WHEN]"
    by (auto split: sum.splits)
  show ?thesis
    using structural_error_guard[of "[''@tag'', ''Feature: f'', ''  text'']" "''  Given x # c''"
        "''/abs/f.feature''" "''d/f.feature''" "''f.feature''" "[''Scenario: s'']"
        "[''Background:'', ''Given a'', ''Scenario: s'']" st "[''Then b'', ''Given c'']"
        5 "''Given c''" "''f.feature''"
        "[''Background:'', ''Given a'', ''When b'']" st' "''Then c''" 4 "''Then c''" "''f.feature''"]
      p l c s s'
    by (auto simp del: parse_lines.simps)
qed

text \<open>
  The claim as stated fails twice. With a Background open and no Scenario, the step
  after a Then step is refused: the guard lets a step pass only when the previous mode is
  Background, Given or When. And a Given line before any Scenario or Background header
  is never reached when an \<^verbatim>\<open>Examples:\<close> line precedes it: the parse ends in an
  \<^verbatim>\<open>AttributeError\<close>.
\<close>

theorem structural_error_counterexample:
  "parse_feature ''/abs/f.feature'' ''d/f.feature'' ''f.feature''
     [''Background:'', ''Then a'', ''Given b'']
     = Inl (FeatureError outside_msg 3 ''Given b'' ''f.feature'')
   \<and> parse_feature ''/abs/f.feature'' ''d/f.feature'' ''f.feature'' [''Examples:'', ''Given x'']
     = Inl (AttributeError ''examples'')"
  by code_simp

subsection \<open>Lines in Feature mode\<close>

lemma process_line_feature_mode:
  assumes m: "(case get_step_type (strip_comments line) of Some t \<Rightarrow> Some t | None \<Rightarrow> l_mode st)
              = Some FEATURE"
    and ns: "strip_comments line \<noteq> [] \<or> l_prev_mode st = Some FEATURE"
  shows "process_line fn st n ind line =
     (if l_prev_mode st = None \<or> l_prev_mode st = Some TAG then
        Inr (st\<lparr>l_mode := Some FEATURE,
                l_feature := (l_feature st)
                  \<lparr>Feature.name := Some (snd (parse_line (strip_comments line))),
                   Feature.line_number := n,
                   Feature.tags := get_tags (l_prev_line st)\<rparr>,
                l_prev_mode := Some FEATURE, l_prev_line := Some (strip_comments line)\<rparr>)
      else if l_prev_mode st = Some FEATURE then
        Inr (st\<lparr>l_mode := Some FEATURE,
                l_description := l_description st @ [strip_comments line],
                l_prev_mode := Some FEATURE, l_prev_line := Some (strip_comments line)\<rparr>)
      else Inl (FeatureError multiple_msg n (strip_comments line) fn))"
proof -
  from ns have ns': "\<not> (strip_comments line = []
      \<and> (l_prev_mode st = None \<or> l_prev_mode st \<noteq> Some FEATURE))"
    by auto
  have g: "Some FEATURE \<notin> set (map Some STEP_TYPES)"
    by (simp add: STEP_TYPES_def)
  have e: "\<And>i k p s st'. emit (Some FEATURE) n i k p s st' = Inr st'"
    by (rule emit_header) simp
  show ?thesis
    unfolding process_line_def Let_def
    apply (subst if_not_P[OF ns'])
    unfolding m
    using g by (simp add: e feature_branch_def multiple_msg_def)
qed

text \<open>
  C7, as the code has it. Let the lines \<open>pre\<close> parse to the state \<open>st\<close> and let the
  next line be classified in Feature mode: it starts with \<^verbatim>\<open>Feature: \<close>, or it has no
  recognised prefix while the mode is Feature; it does not continue a step and is not a
  skipped blank line. What happens is decided by the previous mode alone. Unset or Tag:
  the line sets the name, the line number and the tags of the Feature. Feature: the
  comment-stripped line is appended to the description buffer, whether or not it matches
  the Feature-header pattern. Any other mode: the parse fails with the
  "Multiple features" \<^verbatim>\<open>FeatureError\<close>, which carries the line number, the
  comment-stripped line and the file name.
\<close>

theorem feature_mode_line:
  assumes "parse_lines fn (initial_state a r) 1 pre = Inr st"
    and "\<not> continues st (line_indent_of line) (py_lstrip line)"
    and "(case get_step_type (strip_comments line) of Some t \<Rightarrow> Some t | None \<Rightarrow> l_mode st)
         = Some FEATURE"
    and "strip_comments line \<noteq> [] \<or> l_prev_mode st = Some FEATURE"
  shows "parse_lines fn (initial_state a r) 1 (pre @ [line]) =
     (if l_prev_mode st = None \<or> l_prev_mode st = Some TAG then
        Inr (st\<lparr>l_step := None, l_multiline_step := False, l_mode := Some FEATURE,
                l_feature := (l_feature st)
                  \<lparr>Feature.name := Some (snd (parse_line (strip_comments line))),
                   Feature.line_number := Suc (length pre),
                   Feature.tags := get_tags (l_prev_line st)\<rparr>,
                l_prev_mode := Some FEATURE, l_prev_line := Some (strip_comments line)\<rparr>)
      else if l_prev_mode st = Some FEATURE then
        Inr (st\<lparr>l_step := None, l_multiline_step := False, l_mode := Some FEATURE,
                l_description := l_description st @ [strip_comments line],
                l_prev_mode := Some FEATURE, l_prev_line := Some (strip_comments line)\<rparr>)
      else Inl (FeatureError multiple_msg (Suc (length pre)) (strip_comments line) fn))"
proof -
  let ?st1 = "st\<lparr>l_step := None, l_multiline_step := False\<rparr>"
  have "parse_step fn st (Suc (length pre)) line
        = process_line fn ?st1 (Suc (length pre)) (line_indent_of line) line"
    by (rule parse_step_not_continues[OF assms(2)])
  also have "\<dots> = (if l_prev_mode ?st1 = None \<or> l_prev_mode ?st1 = Some TAG then
        Inr (?st1\<lparr>l_mode := Some FEATURE,
                l_feature := (l_feature ?st1)
                  \<lparr>Feature.name := Some (snd (parse_line (strip_comments line))),
                   Feature.line_number := Suc (length pre),
                   Feature.tags := get_tags (l_prev_line ?st1)\<rparr>,
                l_prev_mode := Some FEATURE, l_prev_line := Some (strip_comments line)\<rparr>)
      else if l_prev_mode ?st1 = Some FEATURE then
        Inr (?st1\<lparr>l_mode := Some FEATURE,
                l_description := l_description ?st1 @ [strip_comments line],
                l_prev_mode := Some FEATURE, l_prev_line := Some (strip_comments line)\<rparr>)
      else Inl (FeatureError multiple_msg (Suc (length pre)) (strip_comments line) fn))"
    using assms(3,4) by (intro process_line_feature_mode) (auto split: option.splits)
  finally show ?thesis
    using assms(1) by (simp add: parse_lines_append split: sum.splits)
qed

text \<open>A second Feature header behind a Scenario header is fatal.\<close>

theorem feature_mode_line_witness:
  "parse_lines ''f.feature'' (initial_state ''/abs/f.feature'' ''d/f.feature'') 1
     [''Feature: a'', ''Scenario: s'', ''Feature: b'']
   = Inl (FeatureError multiple_msg 3 ''Feature: b'' ''f.feature'')"
proof -
  have "case parse_lines ''f.feature'' (initial_state ''/abs/f.feature'' ''d/f.feature'') 1
               [''Feature: a'', ''Scenario: s''] of
          Inl e \<Rightarrow> False
        | Inr st \<Rightarrow> l_prev_mode st = Some SCENARIO
            \<and> \<not> continues st (line_indent_of ''Feature: b'') (py_lstrip ''Feature: b'')"
    by code_simp
  then obtain st where s:
    "parse_lines ''f.feature'' (initial_state ''/abs/f.feature'' ''d/f.feature'') 1
               [''Feature: a'', ''Scenario: s''] = Inr st"
    "l_prev_mode st = Some SCENARIO"
    "\<not> continues st (line_indent_of ''Feature: b'') (py_lstrip ''Feature: b'')"
    by (auto split: sum.splits)
  have c: "strip_comments ''Feature: b'' = ''Feature: b''" by code_simp
  have t: "get_step_type ''Feature: b'' = Some FEATURE" by code_simp
  show ?thesis
    using feature_mode_line[OF s(1) s(3)] s(2) c t by simp
qed

text \<open>
  A second Feature header right behind the first is not fatal: it becomes the
  description. Behind a tag line it is not fatal either: it replaces the first header.
\<close>

theorem second_feature_header_counterexample:
  "map_sum id (\<lambda>f. (Feature.name f, Feature.description f))
     (parse_feature ''/abs/f.feature'' ''d/f.feature'' ''f.feature'' [''Feature: a'', ''Feature: b''])
     = Inr (Some ''a'', ''Feature: b'')
   \<and> map_sum id (\<lambda>f. (Feature.name f, Feature.description f))
     (parse_feature ''/abs/f.feature'' ''d/f.feature'' ''f.feature''
        [''Feature: a'', ''@t'', ''Feature: b''])
     = Inr (Some ''b'', [])"
  by code_simp

subsection \<open>Invariants of the loop\<close>

text \<open>
  A property of the Feature under construction that the Feature branch, the emission
  chain and \<^verbatim>\<open>add_line\<close> preserve holds after every line, and so for the state at the
  end of the loop.
\<close>

lemma process_line_invariant:
  assumes fb: "\<And>s s' c. feature_branch fn n c s = Inr s' \<Longrightarrow> I (l_feature s) \<Longrightarrow> I (l_feature s')"
    and em: "\<And>s s' mode i kw p t. emit mode n i kw p t s = Inr s' \<Longrightarrow> I (l_feature s) \<Longrightarrow> I (l_feature s')"
    and w: "I (l_feature st)" and r: "process_line fn st n ind line = Inr st'"
  shows "I (l_feature st')"
proof (cases "strip_comments line = [] \<and> (l_prev_mode st = None \<or> l_prev_mode st \<noteq> Some FEATURE)")
  case True
  with r w show ?thesis by (simp add: process_line_def Let_def)
next
  case False
  define mode where "mode = (case get_step_type (strip_comments line) of Some t \<Rightarrow> Some t | None \<Rightarrow> l_mode st)"
  define st2 where "st2 = st\<lparr>l_mode := mode\<rparr>"
  from w have w2: "I (l_feature st2)" by (simp add: st2_def)
  have u: "process_line fn st n ind line =
     (if l_scenario st2 = None
            \<and> l_prev_mode st2 \<notin> set [Some BACKGROUND, Some GIVEN, Some WHEN]
            \<and> mode \<in> set (map Some STEP_TYPES)
      then Inl (FeatureError ''Step definition outside of a Scenario or a Background''
                  n (strip_comments line) fn)
      else
     (case (if mode = Some FEATURE then feature_branch fn n (strip_comments line) st2 else Inr st2) of
              Inl e \<Rightarrow> Inl e
            | Inr st3 \<Rightarrow>
                (case emit mode n ind (fst (parse_line (strip_comments line)))
                        (snd (parse_line (strip_comments line))) (py_strip line)
                        (st3\<lparr>l_prev_mode := mode\<rparr>) of
                   Inl e \<Rightarrow> Inl e
                 | Inr st4 \<Rightarrow> Inr (st4\<lparr>l_prev_line := Some (strip_comments line)\<rparr>))))"
    unfolding process_line_def Let_def
    apply (subst if_not_P)
     apply (rule False)
    unfolding mode_def[symmetric] st2_def[symmetric]
    apply (rule refl)
    done
  from r obtain st3 st4 where
    a: "(if mode = Some FEATURE then feature_branch fn n (strip_comments line) st2 else Inr st2) = Inr st3"
    and b: "emit mode n ind (fst (parse_line (strip_comments line)))
                        (snd (parse_line (strip_comments line))) (py_strip line)
                        (st3\<lparr>l_prev_mode := mode\<rparr>) = Inr st4"
    and c: "st' = st4\<lparr>l_prev_line := Some (strip_comments line)\<rparr>"
    unfolding u by (auto split: if_splits sum.splits)
  from a w2 have "I (l_feature st3)"
    by (auto split: if_splits dest: fb)
  then have "I (l_feature (st3\<lparr>l_prev_mode := mode\<rparr>))" by simp
  from em[OF b this] c show ?thesis by simp
qed

lemma parse_lines_invariant:
  assumes fb: "\<And>n s s' c. feature_branch fn n c s = Inr s' \<Longrightarrow> I (l_feature s) \<Longrightarrow> I (l_feature s')"
    and em: "\<And>n s s' mode i kw p t. emit mode n i kw p t s = Inr s' \<Longrightarrow> I (l_feature s) \<Longrightarrow> I (l_feature s')"
    and al: "\<And>s line. I (l_feature s) \<Longrightarrow> I (l_feature (add_line_active line s))"
  shows "I (l_feature st) \<Longrightarrow> parse_lines fn st n ls = Inr st' \<Longrightarrow> I (l_feature st')"
proof (induction ls arbitrary: st n)
  case Nil
  then show ?case by simp
next
  case (Cons x ls)
  from Cons.prems(2) obtain st1 where s: "parse_step fn st n x = Inr st1"
      "parse_lines fn st1 (Suc n) ls = Inr st'"
    by (auto split: sum.splits)
  have "I (l_feature st1)"
  proof (cases "continues st (line_indent_of x) (py_lstrip x)")
    case True
    from Cons.prems(1) have "I (l_feature (st\<lparr>l_multiline_step := True\<rparr>))" by simp
    from al[OF this] s(1) True show ?thesis
      by (auto simp: parse_step_def Let_def)
  next
    case False
    from Cons.prems(1) have i: "I (l_feature (st\<lparr>l_step := None, l_multiline_step := False\<rparr>))"
      by simp
    from s(1) have "process_line fn (st\<lparr>l_step := None, l_multiline_step := False\<rparr>) n
                      (line_indent_of x) x = Inr st1"
      by (simp add: parse_step_not_continues[OF False])
    from process_line_invariant[of fn n I, OF fb em i this] show ?thesis .
  qed
  from Cons.IH[OF this s(2)] show ?case .
qed

section \<open>The tree the parser builds, and the Validator\<close>

lemma list_all_update:
  "P (k, v) \<Longrightarrow> list_all P xs \<Longrightarrow> list_all P (AList.update k v xs)"
  by (induction xs) auto

lemma list_all_map_entry:
  "list_all P xs \<Longrightarrow> (\<And>v. P (k, v) \<Longrightarrow> P (k, g v)) \<Longrightarrow> list_all P (AList.map_entry k g xs)"
  by (induction xs) auto

lemma list_all_map_last:
  "list_all P xs \<Longrightarrow> (\<And>x. P x \<Longrightarrow> P (g x)) \<Longrightarrow> list_all P (map_last g xs)"
proof (cases "xs = []")
  case True
  then show ?thesis by (simp add: map_last_def)
next
  case False
  assume a: "list_all P xs" "\<And>x. P x \<Longrightarrow> P (g x)"
  from False a(1) have "list_all P (butlast xs)" "P (last xs)"
    by (auto simp: list_all_iff dest: in_set_butlastD)
  with a(2) False show ?thesis by (simp add: map_last_def)
qed

lemma validate_scenario_steps_ok:
  "list_all (step_in_scenario (ScenarioTemplate.oid sc)) ss \<Longrightarrow> validate_scenario_steps h sc ss = Inr ()"
  by (induction ss) (auto simp: step_in_scenario_def ScenarioTemplate_ne_def)

lemma validate_background_steps_ok:
  "list_all (step_in_background (Background.oid b)) ss \<Longrightarrow> validate_background_steps h b ss = Inr ()"
  by (induction ss) (auto simp: step_in_background_def Background_ne_def)

lemma validate_scenarios_ok:
  "list_all wf_scenario xs \<Longrightarrow> validate_scenarios h xs = Inr ()"
  by (induction xs) (auto simp: wf_scenario_def ScenarioTemplate_validate_def validate_scenario_steps_ok)

lemma validate_accepts_wf: "wf_feature f \<Longrightarrow> Feature_validate f = Inr ()"
  by (auto simp: wf_feature_def Feature_validate_def Feature_validate_in_def validate_scenarios_ok
      Background_validate_def wf_background_def validate_background_steps_ok split: option.splits)

text \<open>The parser keeps the tree under construction well-formed.\<close>

lemma feature_branch_wf:
  "feature_branch fn n c st = Inr st' \<Longrightarrow> wf_feature (l_feature st) \<Longrightarrow> wf_feature (l_feature st')"
  by (auto simp: feature_branch_def wf_feature_def split: if_splits)

lemma update_scenario_wf:
  assumes "wf_feature (l_feature st)"
    and "\<And>k sc. wf_scenario (k, sc) \<Longrightarrow> wf_scenario (k, g sc)"
  shows "wf_feature (l_feature (update_scenario g st))"
  using assms
  by (auto simp: update_scenario_def wf_feature_def intro: list_all_map_entry split: option.splits)

lemma update_background_wf:
  assumes "wf_feature (l_feature st)"
    and "\<And>b. wf_background b \<Longrightarrow> wf_background (g b)"
  shows "wf_feature (l_feature (update_background g st))"
  using assms
  by (auto simp: update_background_def wf_feature_def split: option.splits)

lemma add_line_active_wf:
  assumes "wf_feature (l_feature st)"
  shows "wf_feature (l_feature (add_line_active line st))"
proof -
  have s: "\<And>i x. step_in_scenario i x \<Longrightarrow> step_in_scenario i (Step_add_line line x)"
    by (simp add: step_in_scenario_def Step_add_line_def)
  have b: "\<And>i x. step_in_background i x \<Longrightarrow> step_in_background i (Step_add_line line x)"
    by (simp add: step_in_background_def Step_add_line_def)
  show ?thesis
  proof (cases "l_step st")
    case None
    with assms show ?thesis by (simp add: add_line_active_def)
  next
    case (Some ref)
    show ?thesis
    proof (cases ref)
      case InBackground
      have "wf_feature (l_feature (update_background
            (\<lambda>b. b\<lparr>Background.steps := map_last (Step_add_line line) (Background.steps b)\<rparr>) st))"
        using assms by (rule update_background_wf) (auto simp: wf_background_def intro: list_all_map_last b)
      with Some InBackground show ?thesis by (simp add: add_line_active_def)
    next
      case InScenario
      have "wf_feature (l_feature (update_scenario
            (\<lambda>sc. sc\<lparr>p_steps := map_last (Step_add_line line) (p_steps sc)\<rparr>) st))"
        using assms by (rule update_scenario_wf) (auto simp: wf_scenario_def intro: list_all_map_last s)
      with Some InScenario show ?thesis by (simp add: add_line_active_def)
    qed
  qed
qed

lemma wf_scenario_examples_update:
  "wf_scenario (k, sc) \<Longrightarrow> wf_scenario (k, sc\<lparr>ScenarioTemplate.examples := e\<rparr>)"
  by (simp add: wf_scenario_def)

lemma wf_scenario_add_step:
  "wf_scenario (k, sc) \<Longrightarrow> wf_scenario (k, ScenarioTemplate_add_step (Step_init m p n i kw d t) sc)"
  by (simp add: wf_scenario_def ScenarioTemplate_add_step_def Step_init_def step_in_scenario_def)

lemma wf_background_add_step:
  "wf_background b \<Longrightarrow> wf_background (Background_add_step (Step_init m p n i kw d t) b)"
  by (simp add: wf_background_def Background_add_step_def Step_init_def step_in_background_def)

lemma wf_scenario_init: "wf_scenario (k, ScenarioTemplate_init i (Some j) k n ts tm)"
  by (simp add: wf_scenario_def ScenarioTemplate_init_def)

lemma wf_background_init: "wf_background (Background_init i (Some j) n)"
  by (simp add: wf_background_def Background_init_def)

lemma emit_wf:
  assumes w: "wf_feature (l_feature st)" and e: "emit mode n i kw p s st = Inr st'"
  shows "wf_feature (l_feature st')"
proof -
  consider (scen) "mode = Some SCENARIO \<or> mode = Some SCENARIO_OUTLINE"
    | (bg) "mode = Some BACKGROUND"
    | (ex) "mode = Some EXAMPLES"
    | (exh) "mode = Some EXAMPLES_HEADERS"
    | (exl) "mode = Some EXAMPLE_LINE"
    | (none) "mode = None \<or> mode = Some FEATURE \<or> mode = Some TAG"
    | (step) m where "mode = Some m" "m = GIVEN \<or> m = WHEN \<or> m = THEN_TYPE"
    by (cases mode) (auto intro: mode.exhaust)
  then show ?thesis
  proof cases
    case scen
    with e have "l_feature st' = (l_feature st)
                   \<lparr>scenarios :=
                      AList.update p
                        (ScenarioTemplate_init n (Some (Feature.oid (l_feature st)))
                           p n (get_tags (l_prev_line st))
                           (mode = Some SCENARIO_OUTLINE))
                        (scenarios (l_feature st))\<rparr>"
      by (auto simp: emit_def)
    with w show ?thesis
      by (auto simp: wf_feature_def intro: list_all_update wf_scenario_init)
  next
    case bg
    with e have "l_feature st' = (l_feature st)
                   \<lparr>background := Some (Background_init n (Some (Feature.oid (l_feature st))) n)\<rparr>"
      by (auto simp: emit_def)
    with w show ?thesis
      by (auto simp: wf_feature_def wf_background_init)
  next
    case ex
    with e have "st' = update_scenario
                (\<lambda>sc. sc\<lparr>ScenarioTemplate.examples :=
                           (ScenarioTemplate.examples sc)\<lparr>Examples.line_number := Some n\<rparr>\<rparr>)
                (st\<lparr>l_mode := Some EXAMPLES_HEADERS\<rparr>)"
      by (auto simp: emit_def split: if_splits)
    moreover from w have "wf_feature (l_feature (st\<lparr>l_mode := Some EXAMPLES_HEADERS\<rparr>))" by simp
    ultimately show ?thesis
      by (auto intro!: update_scenario_wf wf_scenario_examples_update)
  next
    case exh
    with e have "l_feature st' = l_feature (update_scenario
                (\<lambda>sc. sc\<lparr>ScenarioTemplate.examples :=
                           set_param_names (filter (\<lambda>l. l \<noteq> []) (split_line p))
                             (ScenarioTemplate.examples sc)\<rparr>) st)"
      by (auto simp: emit_def split: if_splits)
    with w show ?thesis
      by (auto intro!: update_scenario_wf wf_scenario_examples_update)
  next
    case exl
    with e have "st' = update_scenario
                (\<lambda>sc. sc\<lparr>ScenarioTemplate.examples :=
                           add_example (split_line s) (ScenarioTemplate.examples sc)\<rparr>) st"
      by (auto simp: emit_def split: if_splits)
    with w show ?thesis
      by (auto intro!: update_scenario_wf wf_scenario_examples_update)
  next
    case none
    with e have "st' = st" by (auto simp: emit_def)
    with w show ?thesis by simp
  next
    case step
    with e have "l_feature st' = l_feature (update_background
                    (Background_add_step (Step_init m p n i kw None None)) st)
        \<or> l_feature st' = l_feature (update_scenario
                    (ScenarioTemplate_add_step (Step_init m p n i kw None None)) st)"
      by (auto simp: emit_def Let_def split: if_splits)
    with w show ?thesis
      by (auto intro!: update_scenario_wf update_background_wf wf_scenario_add_step
          wf_background_add_step)
  qed
qed

lemma parse_feature_wf:
  assumes "parse_feature a r fn ls = Inr f"
  shows "wf_feature f"
proof -
  have i: "wf_feature (l_feature (initial_state a r))"
    by (simp add: initial_state_def Feature_init_def wf_feature_def)
  from assms obtain st where s: "parse_lines fn (initial_state a r) 1 ls = Inr st"
    and f: "f = (l_feature st)\<lparr>description := py_strip (py_join [CHR 0x0A] (l_description st))\<rparr>"
    by (auto simp: parse_feature_def split: sum.splits)
  have "wf_feature (l_feature st)"
    by (rule parse_lines_invariant[of fn wf_feature, OF _ _ _ i s])
      (auto intro: feature_branch_wf emit_wf add_line_active_wf)
  then show ?thesis
    by (simp add: f wf_feature_def)
qed

text \<open>
  The well-formed trees are not the only ones that pass. The references are compared by
  value: a step of a scenario may reference another ScenarioTemplate that is equal to
  the scenario, here one outside the collection that holds a step equal to the
  scenario's. When the steps of the two have no \<^verbatim>\<open>_name\<close>, the comparison itself
  raises.
\<close>

theorem validate_compares_by_value:
  "(let named = (Step_set_name ''a'' (Step_init GIVEN ''a'' 2 2 ''Given'' None None))
                  \<lparr>Step.line_number := Some 2, Step.scenario := Some 7\<rparr>;
        unset = (Step_init GIVEN ''a'' 2 2 ''Given'' None None)\<lparr>Step.scenario := Some 7\<rparr>;
        sc = \<lambda>i ss. (ScenarioTemplate_init i (Some 0) ''s'' 1 {} False)\<lparr>p_steps := ss\<rparr>;
        hp = \<lambda>ss. \<lparr>h_root = (Feature_init ''/abs/f.feature'' ''f.feature'')
                               \<lparr>scenarios := [(''s'', sc 1 ss)]\<rparr>,
                     h_scenarios = [sc 7 ss], h_backgrounds = []\<rparr>
    in (Feature_validate_in (hp [named]), wf_feature (h_root (hp [named])),
        Feature_validate_in (hp [unset])))
   = (Inr (), False, Inl (AttributeError ''_name''))"
  by code_simp

text \<open>Every tree that \<^verbatim>\<open>parse_feature\<close> returns passes \<^verbatim>\<open>Feature.validate\<close>.\<close>

theorem parsed_tree_validates:
  "parse_feature a r fn ls = Inr f \<Longrightarrow> Feature_validate f = Inr ()"
  by (simp add: validate_accepts_wf parse_feature_wf)

subsection \<open>The steps of a scenario\<close>

text \<open>
  C2. For a ScenarioTemplate whose feature reference is set, the property \<^verbatim>\<open>steps\<close>
  is the step list of the Feature's Background, if there is one, followed by the
  scenario's own step list, and the own step list alone if there is none. Every
  ScenarioTemplate of a Feature that \<^verbatim>\<open>parse_feature\<close> returns has its feature
  reference set, so the equation holds for each of them.
\<close>

theorem scenario_steps_background_first:
  "(ScenarioTemplate.feature sc \<noteq> None \<longrightarrow>
      ScenarioTemplate_steps f sc
        = Inr ((case background f of None \<Rightarrow> [] | Some b \<Rightarrow> Background.steps b) @ p_steps sc))
   \<and> (parse_feature a r fn ls = Inr f' \<longrightarrow> (k, sc') \<in> set (scenarios f') \<longrightarrow>
      ScenarioTemplate_steps f' sc'
        = Inr ((case background f' of None \<Rightarrow> [] | Some b \<Rightarrow> Background.steps b) @ p_steps sc'))"
proof -
  have 1: "\<And>f sc. ScenarioTemplate.feature sc \<noteq> None \<Longrightarrow>
      ScenarioTemplate_steps f sc
        = Inr ((case background f of None \<Rightarrow> [] | Some b \<Rightarrow> Background.steps b) @ p_steps sc)"
    by (auto simp: ScenarioTemplate_steps_def background_steps_of_def)
  have "ScenarioTemplate.feature sc' \<noteq> None"
    if "parse_feature a r fn ls = Inr f'" "(k, sc') \<in> set (scenarios f')"
  proof -
    from that(1) have "list_all wf_scenario (scenarios f')"
      using parse_feature_wf by (auto simp: wf_feature_def)
    with that(2) have "wf_scenario (k, sc')" by (auto simp: list_all_iff)
    then show ?thesis by (simp add: wf_scenario_def)
  qed
  with 1 show ?thesis by blast
qed

text \<open>
  A Background with the step S1, then a Scenario with the steps S2 and S3: the steps of
  the scenario are the three step objects in this order.
\<close>

theorem scenario_steps_background_first_witness:
  "map_sum id (\<lambda>f. map (\<lambda>kv. ScenarioTemplate_steps f (snd kv)) (scenarios f))
     (parse_feature ''/abs/f.feature'' ''d/f.feature'' ''f.feature''
        [''Background:'', ''  Given S1'', ''Scenario: sc'', ''  Given S2'', ''  When S3''])
   = Inr [Inr
      [\<lparr>type = GIVEN, p_name = None, line_number = None, indent = 2, keyword = ''Given'',
        docstring = None, datatable = None, failed = False, scenario = None,
        background = Some 1, lines = []\<rparr>,
       \<lparr>type = GIVEN, p_name = None, line_number = None, indent = 2, keyword = ''Given'',
        docstring = None, datatable = None, failed = False, scenario = Some 3,
        background = None, lines = []\<rparr>,
       \<lparr>type = WHEN, p_name = None, line_number = None, indent = 2, keyword = ''When'',
        docstring = None, datatable = None, failed = False, scenario = Some 3,
        background = None, lines = []\<rparr>]]"
proof -
  let ?ls = "[''Background:'', ''  Given S1'', ''Scenario: sc'', ''  Given S2'', ''  When S3'']"
  let ?p = "parse_feature ''/abs/f.feature'' ''d/f.feature'' ''f.feature'' ?ls"
  have "case ?p of
          Inl e \<Rightarrow> False
        | Inr f \<Rightarrow>
            map fst (scenarios f) = [''sc'']
            \<and> (case background f of None \<Rightarrow> [] | Some b \<Rightarrow> Background.steps b)
               = [\<lparr>type = GIVEN, p_name = None, line_number = None, indent = 2, keyword = ''Given'',
                   docstring = None, datatable = None, failed = False, scenario = None,
                   background = Some 1, lines = []\<rparr>]
            \<and> map (\<lambda>kv. p_steps (snd kv)) (scenarios f)
               = [[\<lparr>type = GIVEN, p_name = None, line_number = None, indent = 2, keyword = ''Given'',
                    docstring = None, datatable = None, failed = False, scenario = Some 3,
                    background = None, lines = []\<rparr>,
                   \<lparr>type = WHEN, p_name = None, line_number = None, indent = 2, keyword = ''When'',
                    docstring = None, datatable = None, failed = False, scenario = Some 3,
                    background = None, lines = []\<rparr>]]"
    by code_simp
  then obtain f where f: "?p = Inr f" "map fst (scenarios f) = [''sc'']"
    "(case background f of None \<Rightarrow> [] | Some b \<Rightarrow> Background.steps b)
               = [\<lparr>type = GIVEN, p_name = None, line_number = None, indent = 2, keyword = ''Given'',
                   docstring = None, datatable = None, failed = False, scenario = None,
                   background = Some 1, lines = []\<rparr>]"
    "map (\<lambda>kv. p_steps (snd kv)) (scenarios f)
               = [[\<lparr>type = GIVEN, p_name = None, line_number = None, indent = 2, keyword = ''Given'',
                    docstring = None, datatable = None, failed = False, scenario = Some 3,
                    background = None, lines = []\<rparr>,
                   \<lparr>type = WHEN, p_name = None, line_number = None, indent = 2, keyword = ''When'',
                    docstring = None, datatable = None, failed = False, scenario = Some 3,
                    background = None, lines = []\<rparr>]]"
    by (auto split: sum.splits)
  from f(2) obtain sc where sc: "scenarios f = [(''sc'', sc)]"
    by (cases "scenarios f") auto
  then have "(''sc'', sc) \<in> set (scenarios f)" by simp
  with scenario_steps_background_first[of sc f "''/abs/f.feature''" "''d/f.feature''"
      "''f.feature''" ?ls f "''sc''" sc] f(1)
  have "ScenarioTemplate_steps f sc
        = Inr ((case background f of None \<Rightarrow> [] | Some b \<Rightarrow> Background.steps b) @ p_steps sc)"
    by blast
  with f sc show ?thesis by simp
qed

section \<open>Step text and rendering on the trees the parser builds\<close>

lemma feature_branch_unnamed:
  "feature_branch fn n c st = Inr st' \<Longrightarrow> unnamed_feature (l_feature st)
   \<Longrightarrow> unnamed_feature (l_feature st')"
  by (auto simp: feature_branch_def unnamed_feature_def background_steps_of_def split: if_splits)

lemma update_scenario_unnamed:
  assumes "unnamed_feature (l_feature st)"
    and "\<And>sc. list_all unnamed (p_steps sc) \<Longrightarrow> list_all unnamed (p_steps (g sc))"
  shows "unnamed_feature (l_feature (update_scenario g st))"
  using assms
  by (auto simp: update_scenario_def unnamed_feature_def background_steps_of_def
      intro: list_all_map_entry split: option.splits)

lemma update_background_unnamed:
  assumes "unnamed_feature (l_feature st)"
    and "\<And>b. list_all unnamed (Background.steps b) \<Longrightarrow> list_all unnamed (Background.steps (g b))"
  shows "unnamed_feature (l_feature (update_background g st))"
  using assms
  by (auto simp: update_background_def unnamed_feature_def background_steps_of_def
      split: option.splits)

lemma unnamed_add_line: "unnamed x \<Longrightarrow> unnamed (Step_add_line line x)"
  by (simp add: unnamed_def Step_add_line_def)

lemma add_line_active_unnamed:
  assumes "unnamed_feature (l_feature st)"
  shows "unnamed_feature (l_feature (add_line_active line st))"
proof (cases "l_step st")
  case None
  with assms show ?thesis by (simp add: add_line_active_def)
next
  case (Some ref)
  show ?thesis
  proof (cases ref)
    case InBackground
    have "unnamed_feature (l_feature (update_background
          (\<lambda>b. b\<lparr>Background.steps := map_last (Step_add_line line) (Background.steps b)\<rparr>) st))"
      using assms by (rule update_background_unnamed) (auto intro: list_all_map_last unnamed_add_line)
    with Some InBackground show ?thesis by (simp add: add_line_active_def)
  next
    case InScenario
    have "unnamed_feature (l_feature (update_scenario
          (\<lambda>sc. sc\<lparr>p_steps := map_last (Step_add_line line) (p_steps sc)\<rparr>) st))"
      using assms by (rule update_scenario_unnamed) (auto intro: list_all_map_last unnamed_add_line)
    with Some InScenario show ?thesis by (simp add: add_line_active_def)
  qed
qed

lemma emit_unnamed:
  assumes e: "emit mode n i kw p s st = Inr st'" and w: "unnamed_feature (l_feature st)"
  shows "unnamed_feature (l_feature st')"
proof -
  consider (scen) "mode = Some SCENARIO \<or> mode = Some SCENARIO_OUTLINE"
    | (bg) "mode = Some BACKGROUND"
    | (ex) "mode = Some EXAMPLES"
    | (exh) "mode = Some EXAMPLES_HEADERS"
    | (exl) "mode = Some EXAMPLE_LINE"
    | (none) "mode = None \<or> mode = Some FEATURE \<or> mode = Some TAG"
    | (step) m where "mode = Some m" "m = GIVEN \<or> m = WHEN \<or> m = THEN_TYPE"
    by (cases mode) (auto intro: mode.exhaust)
  then show ?thesis
  proof cases
    case scen
    with e have "l_feature st' = (l_feature st)
                   \<lparr>scenarios :=
                      AList.update p
                        (ScenarioTemplate_init n (Some (Feature.oid (l_feature st)))
                           p n (get_tags (l_prev_line st))
                           (mode = Some SCENARIO_OUTLINE))
                        (scenarios (l_feature st))\<rparr>"
      by (auto simp: emit_def)
    with w show ?thesis
      by (auto simp: unnamed_feature_def background_steps_of_def ScenarioTemplate_init_def
          intro!: list_all_update)
  next
    case bg
    with e have "l_feature st' = (l_feature st)
                   \<lparr>background := Some (Background_init n (Some (Feature.oid (l_feature st))) n)\<rparr>"
      by (auto simp: emit_def)
    with w show ?thesis
      by (auto simp: unnamed_feature_def background_steps_of_def Background_init_def)
  next
    case ex
    with e have "st' = update_scenario
                (\<lambda>sc. sc\<lparr>ScenarioTemplate.examples :=
                           (ScenarioTemplate.examples sc)\<lparr>Examples.line_number := Some n\<rparr>\<rparr>)
                (st\<lparr>l_mode := Some EXAMPLES_HEADERS\<rparr>)"
      by (auto simp: emit_def split: if_splits)
    moreover from w have "unnamed_feature (l_feature (st\<lparr>l_mode := Some EXAMPLES_HEADERS\<rparr>))" by simp
    ultimately show ?thesis
      by (auto intro!: update_scenario_unnamed)
  next
    case exh
    with e have "l_feature st' = l_feature (update_scenario
                (\<lambda>sc. sc\<lparr>ScenarioTemplate.examples :=
                           set_param_names (filter (\<lambda>l. l \<noteq> []) (split_line p))
                             (ScenarioTemplate.examples sc)\<rparr>) st)"
      by (auto simp: emit_def split: if_splits)
    with w show ?thesis
      by (auto intro!: update_scenario_unnamed)
  next
    case exl
    with e have "st' = update_scenario
                (\<lambda>sc. sc\<lparr>ScenarioTemplate.examples :=
                           add_example (split_line s) (ScenarioTemplate.examples sc)\<rparr>) st"
      by (auto simp: emit_def split: if_splits)
    with w show ?thesis
      by (auto intro!: update_scenario_unnamed)
  next
    case none
    with e have "st' = st" by (auto simp: emit_def)
    with w show ?thesis by simp
  next
    case step
    with e have "l_feature st' = l_feature (update_background
                    (Background_add_step (Step_init m p n i kw None None)) st)
        \<or> l_feature st' = l_feature (update_scenario
                    (ScenarioTemplate_add_step (Step_init m p n i kw None None)) st)"
      by (auto simp: emit_def Let_def split: if_splits)
    with w show ?thesis
      by (auto intro!: update_scenario_unnamed update_background_unnamed
          simp: ScenarioTemplate_add_step_def Background_add_step_def Step_init_def unnamed_def)
  qed
qed

lemma parse_feature_unnamed:
  assumes "parse_feature a r fn ls = Inr f"
  shows "unnamed_feature f"
proof -
  have i: "unnamed_feature (l_feature (initial_state a r))"
    by (simp add: initial_state_def Feature_init_def unnamed_feature_def background_steps_of_def)
  from assms obtain st where s: "parse_lines fn (initial_state a r) 1 ls = Inr st"
    and f: "f = (l_feature st)\<lparr>description := py_strip (py_join [CHR 0x0A] (l_description st))\<rparr>"
    by (auto simp: parse_feature_def split: sum.splits)
  have "unnamed_feature (l_feature st)"
    by (rule parse_lines_invariant[of fn unnamed_feature, OF _ _ _ i s])
      (auto intro: feature_branch_unnamed emit_unnamed add_line_active_unnamed)
  then show ?thesis
    by (simp add: f unnamed_feature_def background_steps_of_def)
qed

lemma Step_name_unnamed: "unnamed s \<Longrightarrow> Step_name s = Inl (AttributeError ''_name'')"
  by (simp add: Step_name_def unnamed_def Let_def)

text \<open>
  Reading the displayed text of any step of any parsed tree raises \<^verbatim>\<open>AttributeError\<close>.
\<close>

theorem parsed_step_has_no_name:
  assumes "parse_feature a r fn ls = Inr f"
    and "s \<in> set (background_steps_of f) \<or> (\<exists>k sc. (k, sc) \<in> set (scenarios f) \<and> s \<in> set (p_steps sc))"
  shows "Step_name s = Inl (AttributeError ''_name'')"
proof -
  from parse_feature_unnamed[OF assms(1)] assms(2) have "unnamed s"
    by (auto simp: unnamed_feature_def list_all_iff)
  then show ?thesis by (rule Step_name_unnamed)
qed

text \<open>
  Rendering any Scenario Outline of a parsed tree that has a step of its own raises
  \<^verbatim>\<open>AttributeError\<close>, whatever the context.
\<close>

theorem parsed_outline_render_raises:
  assumes "parse_feature a r fn ls = Inr f" and "(k, sc) \<in> set (scenarios f)"
    and "templated sc" and "p_steps sc \<noteq> []"
  shows "ScenarioTemplate_render f sc context = Inl (AttributeError ''_name'')"
proof -
  from assms(4) obtain s ss where ss: "p_steps sc = s # ss" by (cases "p_steps sc") auto
  with assms(1,2) have "Step_name s = Inl (AttributeError ''_name'')"
    by (intro parsed_step_has_no_name[OF assms(1)]) force
  then have "render_steps context (p_steps sc) = Inl (AttributeError ''_name'')"
    by (simp add: ss Step_render_def)
  moreover from parse_feature_wf[OF assms(1)] assms(2) have "ScenarioTemplate.feature sc \<noteq> None"
    by (auto simp: wf_feature_def wf_scenario_def list_all_iff)
  ultimately show ?thesis
    using assms(3) by (auto simp: ScenarioTemplate_render_def)
qed

text \<open>
  C1. The Scenario Outline of the claim: header \<open>name\<close>, \<open>age\<close>, the rows
  Alice, 30 and Bob, 25, one step \<^verbatim>\<open><name> is <age>\<close>. The file parses and the
  Examples table gives the two contexts, but \<^verbatim>\<open>render\<close> raises \<^verbatim>\<open>AttributeError\<close>
  for both: the step was built by \<^verbatim>\<open>Step.__init__\<close>, which does not store its
  \<^verbatim>\<open>name\<close> argument, so \<^verbatim>\<open>step.render\<close> fails when it reads \<^verbatim>\<open>self.name\<close>. On a
  step whose name was assigned through the setter the substitution gives the texts of
  the claim.
\<close>

theorem render_outline_raises:
  "map_sum id
     (\<lambda>f. map (\<lambda>kv. (example_params (ScenarioTemplate.examples (snd kv)),
                       Examples.examples (ScenarioTemplate.examples (snd kv)),
                       map (\<lambda>c. case c of Inl e \<Rightarrow> Inl e
                                 | Inr context \<Rightarrow> ScenarioTemplate_render f (snd kv) context)
                         (as_contexts (ScenarioTemplate.examples (snd kv)))))
             (scenarios f))
     (parse_feature ''/abs/f.feature'' ''d/f.feature'' ''f.feature''
        [''Scenario Outline: greet'', ''  Given <name> is <age>'', ''  Examples:'',
         ''  | name | age |'', ''  | Alice | 30 |'', ''  | Bob | 25 |''])
   = Inr [([''name'', ''age''], [[''Alice'', ''30''], [''Bob'', ''25'']],
           [Inl (AttributeError ''_name''), Inl (AttributeError ''_name'')])]
   \<and> Step_render [''name'' \<mapsto> ''Alice'', ''age'' \<mapsto> ''30'']
        (Step_set_name ''<name> is <age>'' (Step_init GIVEN ''<name> is <age>'' 2 2 ''Given'' None None))
      = Inr ''Alice is 30''
   \<and> Step_render [''name'' \<mapsto> ''Bob'', ''age'' \<mapsto> ''25'']
        (Step_set_name ''<name> is <age>'' (Step_init GIVEN ''<name> is <age>'' 2 2 ''Given'' None None))
      = Inr ''Bob is 25''"
  by code_simp

text \<open>
  C6. A step followed by an indented block of two lines between two delimiter lines.
  The four continuation lines are captured, but reading the displayed text of the
  parsed step raises \<^verbatim>\<open>AttributeError\<close>: \<^verbatim>\<open>_name\<close> was never assigned. After
  \<^verbatim>\<open>step.name = "a step"\<close> the property returns the text of the claim.
\<close>

theorem step_name_raises:
  "map_sum id
     (\<lambda>f. map (\<lambda>kv. map (\<lambda>s. (Step.lines s, Step_name s, Step_name (Step_set_name ''a step'' s)))
                        (p_steps (snd kv)))
             (scenarios f))
     (parse_feature ''/abs/f.feature'' ''d/f.feature'' ''f.feature''
        [''Scenario: s'', ''  Given a step'', ''    '' @ quote3, ''    line1'', ''    line2'',
         ''    '' @ quote3])
   = Inr [[([''    '' @ quote3, ''    line1'', ''    line2'', ''    '' @ quote3],
            Inl (AttributeError ''_name''),
            Inr (''a step'' @ [CHR 0x0A] @ ''line1'' @ [CHR 0x0A] @ ''line2''))]]"
  by code_simp

text \<open>
  C8. An outline whose step names the placeholder \<open>missing\<close> while the table has the
  column \<open>present\<close> only. The file parses. Rendering its row raises
  \<^verbatim>\<open>AttributeError\<close>, which is not a lookup error: \<^verbatim>\<open>self.name\<close> fails before any
  key is looked up. On a step whose name was assigned through the setter the same
  rendering raises \<^verbatim>\<open>KeyError\<close>.
\<close>

theorem render_missing_key_raises_attribute_error:
  "map_sum id
     (\<lambda>f. map (\<lambda>kv. (example_params (ScenarioTemplate.examples (snd kv)),
                       Examples.examples (ScenarioTemplate.examples (snd kv)),
                       map (\<lambda>c. case c of Inl e \<Rightarrow> Inl e
                                 | Inr context \<Rightarrow> ScenarioTemplate_render f (snd kv) context)
                         (as_contexts (ScenarioTemplate.examples (snd kv)))))
             (scenarios f))
     (parse_feature ''/abs/f.feature'' ''d/f.feature'' ''f.feature''
        [''Scenario Outline: o'', ''  Given <missing> things'', ''  Examples:'',
         ''  | present |'', ''  | 1 |''])
   = Inr [([''present''], [[''1'']], [Inl (AttributeError ''_name'')])]
   \<and> Step_render [''present'' \<mapsto> ''1'']
        (Step_set_name ''<missing> things''
           (Step_init GIVEN ''<missing> things'' 2 2 ''Given'' None None))
      = Inl (KeyError ''missing'')"
  by code_simp

text \<open>
  C9. The tree of a file with two scenarios passes the Validator. With the key of a
  scenario changed, the Validator raises \<^verbatim>\<open>ValidationError\<close>. With the scenario
  reference of the steps swapped to the second scenario, the step of the first scenario
  is found out, but building the message of the \<^verbatim>\<open>ValidationError\<close> calls
  \<^verbatim>\<open>Step.__str__\<close>, which reads \<^verbatim>\<open>self.name\<close>: the Validator raises
  \<^verbatim>\<open>AttributeError\<close> instead.
\<close>

theorem validate_swapped_reference_raises_attribute_error:
  "map_sum id
     (\<lambda>f. (Feature_validate f,
            Feature_validate
              (f\<lparr>scenarios :=
                   map (\<lambda>kv. (fst kv, (snd kv)\<lparr>p_steps :=
                          map (\<lambda>s. s\<lparr>Step.scenario := Some 3\<rparr>) (p_steps (snd kv))\<rparr>))
                     (scenarios f)\<rparr>),
            Feature_validate
              (f\<lparr>scenarios := map (\<lambda>kv. (''other'', snd kv)) (scenarios f)\<rparr>)))
     (parse_feature ''/abs/f.feature'' ''d/f.feature'' ''f.feature''
        [''Scenario: s1'', ''  Given a'', ''Scenario: s2'', ''  Given b''])
   = Inr (Inr (), Inl (AttributeError ''_name''),
          Inl (ValidationError ''Expected scenario_name and scenario to be the same''))"
  by code_simp

end
